theory Spec2Isabelle
  imports Complex_Main "HOL-Library.Word" "HOL-Library.AList"
begin

section \<open>Data model\<close>

text \<open>
  The bot keeps two process-wide registries, \<open>wallets\<close> and \<open>states\<close>, keyed by the
  Telegram user id. A wallet entry holds the public key and the Base58 text of the secret
  key; a state entry is the snapshot the alert poll compares against.

  JavaScript numbers are doubles. A balance is modelled by the exact rational value of a
  finite double. The numeric fields of a position are kept abstract (type \<open>'n\<close>); the
  only thing the program does with them is to print them through \<open>JSON.stringify\<close>, so
  the number printer is a parameter \<open>ns\<close> of the model. Strings are lists of 8-bit
  characters.
\<close>

record WalletData =
  publicKey :: string
  privateKey :: string

record 'n PositionData =
  pool :: string
  lowerBin :: 'n
  upperBin :: 'n
  liquidity :: 'n
  feesEarned :: 'n

record 'n UserState =
  lastBalance :: rat
  lastPositions :: "'n PositionData list"
  lastSignatures :: "string list"
  network :: string
  lastFaucetTime :: "int option"

record session =
  wallet :: "WalletData option"
  waitingForWalletImport :: bool

datatype endpoint = Primary | Fallback

datatype error = Error string

fun message :: "error \<Rightarrow> string" where
  "message (Error m) = m"

text \<open>
  Everything the program does to the outside world is recorded, in order, in a history of
  events: the remote calls with the endpoint they went to, the sleeps between retries, the
  alert messages and the console lines the handlers print on failure.
\<close>

datatype event =
    RpcGetBalance endpoint string
  | DlmmGetPositions string
  | RpcGetSignatures endpoint string nat
  | RpcRequestAirdrop endpoint string nat
  | RpcConfirmTransaction endpoint string
  | Sleep nat
  | SendMessage nat string
  | AirdropAttemptFailed nat endpoint string
  | PrimaryRpcFailed
  | PollingError nat error
  | RequestTokensError nat error
  | WalletImportError nat error

text \<open>
  The remote services are an arbitrary deterministic environment: the outcome of a call is
  a function of the history so far and of the call's arguments. \<open>Inl\<close> is a rejected
  promise (a thrown error). \<open>getBalance\<close> stands for
  \<open>connection.getBalance(pk) / 1e9\<close>, \<open>getUserPositions\<close> for the position list after
  the service's field renaming, \<open>getSignaturesForAddress\<close> for the signature strings of
  the returned entries, and \<open>confirmTransaction\<close> returns the text of
  \<open>confirmation.value.err\<close> when the confirmation carries one. \<open>sendMessage\<close> is the
  chat transport; \<open>Some\<close> is a failed delivery.
\<close>

record 'n remote =
  getBalance :: "event list \<Rightarrow> endpoint \<Rightarrow> string \<Rightarrow> error + rat"
  getUserPositions :: "event list \<Rightarrow> string \<Rightarrow> error + 'n PositionData list"
  getSignaturesForAddress :: "event list \<Rightarrow> endpoint \<Rightarrow> string \<Rightarrow> nat \<Rightarrow> error + string list"
  requestAirdrop :: "event list \<Rightarrow> endpoint \<Rightarrow> string \<Rightarrow> nat \<Rightarrow> error + string"
  confirmTransaction :: "event list \<Rightarrow> endpoint \<Rightarrow> string \<Rightarrow> error + string option"
  sendMessage :: "event list \<Rightarrow> nat \<Rightarrow> string \<Rightarrow> error option"

text \<open>
  The global state: the registry \<open>wallets\<close> as an association list, \<open>states\<close>, and the
  history. The poll visits the owners in the order of the list. \<open>Object.entries\<close> lists
  integer keys in ascending order; the model does not fix the order (an import keeps an
  owner's place and puts a new owner at the end), and what is proved of the poll holds
  for every order of distinct keys.
\<close>

record 'n world =
  wallets :: "(nat \<times> WalletData) list"
  states :: "nat \<rightharpoonup> 'n UserState"
  history :: "event list"

section \<open>Number formatting\<close>

text \<open>
  \<open>Number.prototype.toFixed\<close> as ECMAScript defines it for a finite value of magnitude
  below \<open>10^21\<close>: take the sign off, let \<open>n\<close> be the integer for which \<open>n / 10^f\<close> is
  closest to \<open>x\<close> (the larger one on a tie), write \<open>n\<close> in decimal, pad it with zeros
  on the left to \<open>f + 1\<close> digits and put the point before the last \<open>f\<close> digits. From
  \<open>10^21\<close> on ECMAScript switches to exponent notation, which is not rendered here; a
  balance is a lamport count below \<open>2^64\<close> divided by \<open>10^9\<close> and stays far below.
\<close>

definition digit_char :: "nat \<Rightarrow> char" where
  "digit_char d = ''0123456789'' ! d"

fun decimal_digits :: "nat \<Rightarrow> string" where
  "decimal_digits n =
     (if n < 10 then [digit_char n]
      else decimal_digits (n div 10) @ [digit_char (n mod 10)])"

declare decimal_digits.simps [simp del]

definition toFixed :: "nat \<Rightarrow> rat \<Rightarrow> string" where
  "toFixed f x0 =
     (let s = (if x0 < 0 then ''-'' else '''');
          x = (if x0 < 0 then - x0 else x0);
          n = nat \<lfloor>x * 10 ^ f + 1 / 2\<rfloor>;
          m = decimal_digits n;
          m = (if f \<noteq> 0 then
                 (let k = length m;
                      m = (if k \<le> f then replicate (f + 1 - k) CHR ''0'' @ m else m);
                      k = (if k \<le> f then f + 1 else k);
                      a = take (k - f) m;
                      b = drop (k - f) m
                  in a @ ''.'' @ b)
               else m)
      in s @ m)"

text \<open>
  The specification's wording, "rounded to 4 decimal places", as a value: the nearest
  multiple of \<open>10^-f\<close>, ties upwards.
\<close>

definition round_to_places :: "nat \<Rightarrow> rat \<Rightarrow> rat" where
  "round_to_places f x = of_int (round (x * 10 ^ f)) / 10 ^ f"

text \<open>
  Number-to-string conversion on integers (plain decimal digits with a minus sign), the
  instance of the number printer used at concrete inputs.
\<close>

definition int_text :: "int \<Rightarrow> string" where
  "int_text i = (if i < 0 then ''-'' @ decimal_digits (nat (- i)) else decimal_digits (nat i))"

section \<open>JSON text of the position projection\<close>

text \<open>
  \<open>JSON.stringify\<close> on an array of objects \<open>{p, l, u, liq}\<close>: strings are quoted with
  the escapes of \<open>QuoteJSONString\<close>, numbers are printed by \<open>ns\<close>, members are joined
  by commas.
\<close>

definition dquote :: char where
  "dquote = CHR 0x22"

definition backslash :: char where
  "backslash = CHR 0x5C"

definition newline :: char where
  "newline = CHR 0x0A"

definition hex_char :: "nat \<Rightarrow> char" where
  "hex_char d = ''0123456789abcdef'' ! d"

definition json_escape_char :: "char \<Rightarrow> string" where
  "json_escape_char c =
     (if c = CHR 0x08 then [backslash, CHR ''b'']
      else if c = CHR 0x09 then [backslash, CHR ''t'']
      else if c = CHR 0x0A then [backslash, CHR ''n'']
      else if c = CHR 0x0C then [backslash, CHR ''f'']
      else if c = CHR 0x0D then [backslash, CHR ''r'']
      else if c = dquote then [backslash, dquote]
      else if c = backslash then [backslash, backslash]
      else if (of_char c :: nat) < 32 then
        [backslash, CHR ''u'', CHR ''0'', CHR ''0'',
         hex_char (of_char c div 16), hex_char (of_char c mod 16)]
      else [c])"

definition json_quote :: "string \<Rightarrow> string" where
  "json_quote s = dquote # concat (map json_escape_char s) @ [dquote]"

definition json_key :: "string \<Rightarrow> string" where
  "json_key k = dquote # k @ [dquote, CHR '':'']"

definition position_key :: "'n PositionData \<Rightarrow> string \<times> 'n \<times> 'n \<times> 'n" where
  "position_key pos = (pool pos, lowerBin pos, upperBin pos, liquidity pos)"

fun json_object :: "('n \<Rightarrow> string) \<Rightarrow> string \<times> 'n \<times> 'n \<times> 'n \<Rightarrow> string" where
  "json_object ns (pl, lo, up, lq) =
     ''{'' @ json_key ''p'' @ json_quote pl @
     '','' @ json_key ''l'' @ ns lo @
     '','' @ json_key ''u'' @ ns up @
     '','' @ json_key ''liq'' @ ns lq @ ''}''"

fun json_array_rest :: "string list \<Rightarrow> string" where
  "json_array_rest [] = '']''"
| "json_array_rest (x # xs) = '','' @ x @ json_array_rest xs"

fun json_array :: "string list \<Rightarrow> string" where
  "json_array [] = ''[]''"
| "json_array (x # xs) = ''['' @ x @ json_array_rest xs"

definition JSON_stringify ::
  "('n \<Rightarrow> string) \<Rightarrow> (string \<times> 'n \<times> 'n \<times> 'n) list \<Rightarrow> string" where
  "JSON_stringify ns ks = json_array (map (json_object ns) ks)"

text \<open>
  What the model needs of the number printer: different numbers print differently, and a
  number's text contains neither a comma nor a closing brace. JavaScript's printer is
  such on finite numbers with the two zeros taken as one; \<open>NaN\<close> and the infinities,
  which \<open>JSON.stringify\<close> all prints as \<open>null\<close>, are not values of a position's fields.
\<close>

definition number_text_ok :: "('n \<Rightarrow> string) \<Rightarrow> bool" where
  "number_text_ok ns \<longleftrightarrow>
     inj ns \<and> (\<forall>x. CHR '','' \<notin> set (ns x) \<and> CHR ''}'' \<notin> set (ns x))"

section \<open>Change detection\<close>

definition balanceChanged :: "'n UserState \<Rightarrow> rat \<Rightarrow> bool" where
  "balanceChanged state currentBalance \<longleftrightarrow>
     (let oldBalanceStr = toFixed 4 (lastBalance state);
          newBalanceStr = toFixed 4 currentBalance
      in newBalanceStr \<noteq> oldBalanceStr)"

definition positionsChanged ::
  "('n \<Rightarrow> string) \<Rightarrow> 'n PositionData list \<Rightarrow> 'n PositionData list \<Rightarrow> bool" where
  "positionsChanged ns currentPositions oldPositions \<longleftrightarrow>
     JSON_stringify ns (map position_key currentPositions) \<noteq>
     JSON_stringify ns (map position_key oldPositions)"

definition includes_js :: "'a list \<Rightarrow> 'a \<Rightarrow> bool" where
  "includes_js xs x = List.member xs x"

definition some :: "('a \<Rightarrow> bool) \<Rightarrow> 'a list \<Rightarrow> bool" where
  "some P xs = list_ex P xs"

definition signatureAlert :: "string list \<Rightarrow> string list \<Rightarrow> bool" where
  "signatureAlert currentSignatures oldSignatures \<longleftrightarrow>
     some (\<lambda>sig. \<not> includes_js oldSignatures sig) currentSignatures"


definition alert_text ::
  "('n \<Rightarrow> string) \<Rightarrow> 'n UserState \<Rightarrow> rat \<Rightarrow> 'n PositionData list \<Rightarrow> string list \<Rightarrow> string" where
  "alert_text ns state currentBalance currentPositions currentSignatures =
     (let alert = '''';
          alert = (if balanceChanged state currentBalance then
                     alert @ ''Balance changed: '' @ toFixed 4 (lastBalance state) @ '' to '' @
                       toFixed 4 currentBalance @ '' SOL'' @ [newline]
                   else alert);
          alert = (if positionsChanged ns currentPositions (lastPositions state) then
                     alert @ ''Your DLMM positions have updated (new position or range change)!'' @
                       [newline]
                   else alert);
          alert = (if signatureAlert currentSignatures (lastSignatures state) then
                     alert @ ''New activity detected in your wallet (new transaction signature)!'' @
                       [newline]
                   else alert)
      in alert)"

section \<open>The alert poll\<close>

text \<open>
  The two read loops of the poll have the same shape:
  \<^verbatim>\<open>for (let attempt = 0; attempt < 3; attempt++) {
    try { cur = await call(); break; }
    catch (err) { if (attempt === 2) throw err; await sleep(2000); } }\<close>
  \<open>cur\<close> is the value the variable holds before the loop.

  \<open>dlmmService.init\<close> only selects the mock client and cannot fail, so it leaves no
  event. The mock's \<open>getUserPositions\<close> returns one fixed position; the model lets the
  position service be any deterministic one, and the mock's answer is \<open>mock_position\<close>
  below. \<open>new PublicKey(walletData.publicKey)\<close> is applied to keys that
  \<open>keypair.publicKey.toString()\<close> produced and does not throw. An alert is recorded
  as the text \<open>alert\<close>; the greeting line and the Markdown escaping put around it are
  formatting. One tick of the timer is modelled; ticks and handlers that overlap in time
  are not.
\<close>

function fetch_with_retry ::
  "(event list \<Rightarrow> error + 'a) \<Rightarrow> event \<Rightarrow> 'a \<Rightarrow> nat \<Rightarrow> event list \<Rightarrow> (error + 'a) \<times> event list" where
  "fetch_with_retry call ev cur attempt h =
     (if attempt < 3 then
        (case call h of
           Inr v \<Rightarrow> (Inr v, h @ [ev])
         | Inl err \<Rightarrow>
             if attempt = 2 then (Inl err, h @ [ev])
             else fetch_with_retry call ev cur (attempt + 1) (h @ [ev, Sleep 2000]))
      else (Inr cur, h))"
  by pat_completeness auto
termination
  by (relation "measure (\<lambda>(call, ev, cur, attempt, h). 3 - attempt)") auto

declare fetch_with_retry.simps [simp del]

definition DlmmService_getPositions ::
  "'n remote \<Rightarrow> event list \<Rightarrow> string \<Rightarrow> error + 'n PositionData list" where
  "DlmmService_getPositions r h pk =
     (case getUserPositions r h pk of
        Inl err \<Rightarrow> Inl (Error (''Failed to fetch positions: '' @ message err))
      | Inr positions \<Rightarrow> Inr positions)"

definition default_state :: "'n UserState" where
  "default_state =
     \<lparr>lastBalance = 0, lastPositions = [], lastSignatures = [], network = ''devnet'',
      lastFaucetTime = None\<rparr>"

definition state_or_default :: "'n world \<Rightarrow> nat \<Rightarrow> 'n UserState" where
  "state_or_default w userId = (case states w userId of None \<Rightarrow> default_state | Some s \<Rightarrow> s)"

text \<open>The body of the \<open>try\<close> block for one owner: \<open>Inl\<close> is what the \<open>catch\<close> receives.\<close>

definition poll_body ::
  "('n \<Rightarrow> string) \<Rightarrow> 'n remote \<Rightarrow> nat \<Rightarrow> WalletData \<Rightarrow> 'n UserState \<Rightarrow> event list
     \<Rightarrow> (error + 'n UserState) \<times> event list" where
  "poll_body ns r userId walletData state h =
     (let userPublicKey = publicKey walletData in
      case fetch_with_retry (\<lambda>h'. getBalance r h' Primary userPublicKey)
             (RpcGetBalance Primary userPublicKey) (lastBalance state) 0 h of
        (Inl err, h1) \<Rightarrow> (Inl err, h1)
      | (Inr currentBalance, h1) \<Rightarrow>
          (case DlmmService_getPositions r h1 userPublicKey of
             Inl err \<Rightarrow> (Inl err, h1 @ [DlmmGetPositions userPublicKey])
           | Inr currentPositions \<Rightarrow>
               (case fetch_with_retry (\<lambda>h'. getSignaturesForAddress r h' Primary userPublicKey 5)
                       (RpcGetSignatures Primary userPublicKey 5) (lastSignatures state) 0
                       (h1 @ [DlmmGetPositions userPublicKey]) of
                  (Inl err, h2) \<Rightarrow> (Inl err, h2)
                | (Inr currentSignatures, h2) \<Rightarrow>
                    (let alert = alert_text ns state currentBalance currentPositions
                                   currentSignatures;
                         state' = state\<lparr>lastBalance := currentBalance,
                                        lastPositions := currentPositions,
                                        lastSignatures := currentSignatures\<rparr>
                     in if alert \<noteq> '''' then
                          (case sendMessage r h2 userId alert of
                             Some err \<Rightarrow> (Inl err, h2 @ [SendMessage userId alert])
                           | None \<Rightarrow> (Inr state', h2 @ [SendMessage userId alert]))
                        else (Inr state', h2)))))"

text \<open>
  One iteration of the loop over \<open>Object.entries(wallets)\<close>: create the default state when
  the owner has none, run the body, store the new state or log the error.
\<close>

definition poll_owner ::
  "('n \<Rightarrow> string) \<Rightarrow> 'n remote \<Rightarrow> 'n world \<Rightarrow> nat \<times> WalletData \<Rightarrow> 'n world" where
  "poll_owner ns r w entry =
     (let userId = fst entry;
          walletData = snd entry;
          state = state_or_default w userId;
          w1 = w\<lparr>states := (states w)(userId \<mapsto> state)\<rparr>
      in case poll_body ns r userId walletData state (history w1) of
           (Inl err, h) \<Rightarrow> w1\<lparr>history := h @ [PollingError userId err]\<rparr>
         | (Inr state', h) \<Rightarrow> w1\<lparr>states := (states w1)(userId \<mapsto> state'), history := h\<rparr>)"

definition poll_entries ::
  "('n \<Rightarrow> string) \<Rightarrow> 'n remote \<Rightarrow> (nat \<times> WalletData) list \<Rightarrow> 'n world \<Rightarrow> 'n world" where
  "poll_entries ns r entries w = foldl (poll_owner ns r) w entries"

definition poll_cycle :: "('n \<Rightarrow> string) \<Rightarrow> 'n remote \<Rightarrow> 'n world \<Rightarrow> 'n world" where
  "poll_cycle ns r w = poll_entries ns r (wallets w) w"

section \<open>The faucet\<close>

text \<open>One attempt of the airdrop: submit, wait for the confirmation, check its error.\<close>

definition airdrop_attempt ::
  "'n remote \<Rightarrow> endpoint \<Rightarrow> string \<Rightarrow> nat \<Rightarrow> event list \<Rightarrow> (error + string) \<times> event list" where
  "airdrop_attempt r conn pk lamports h =
     (case requestAirdrop r h conn pk lamports of
        Inl err \<Rightarrow> (Inl err, h @ [RpcRequestAirdrop conn pk lamports])
      | Inr signature \<Rightarrow>
          (let h1 = h @ [RpcRequestAirdrop conn pk lamports] in
           case confirmTransaction r h1 conn signature of
             Inl err \<Rightarrow> (Inl err, h1 @ [RpcConfirmTransaction conn signature])
           | Inr (Some e) \<Rightarrow>
               (Inl (Error (''Transaction failed to confirm: '' @ e)),
                h1 @ [RpcConfirmTransaction conn signature])
           | Inr None \<Rightarrow> (Inr signature, h1 @ [RpcConfirmTransaction conn signature])))"

text \<open>
  \<open>requestAirdropWithRetry\<close>, with the loop counter as an argument; the function is
  entered with \<open>attempt = 1\<close>.
\<close>

function requestAirdropWithRetry ::
  "'n remote \<Rightarrow> endpoint \<Rightarrow> string \<Rightarrow> nat \<Rightarrow> nat \<Rightarrow> nat \<Rightarrow> nat \<Rightarrow> event list
     \<Rightarrow> (error + string) \<times> event list" where
  "requestAirdropWithRetry r conn pk lamports retries delayMs attempt h =
     (if attempt \<le> retries then
        (case airdrop_attempt r conn pk lamports h of
           (Inr signature, h1) \<Rightarrow> (Inr signature, h1)
         | (Inl err, h1) \<Rightarrow>
             (let h2 = h1 @ [AirdropAttemptFailed attempt conn (message err)] in
              if attempt = retries then (Inl err, h2)
              else requestAirdropWithRetry r conn pk lamports retries delayMs (attempt + 1)
                     (h2 @ [Sleep (delayMs * 2 ^ (attempt - 1))])))
      else (Inl (Error ''Airdrop failed after all retries.''), h))"
  by pat_completeness auto
termination
  by (relation "measure (\<lambda>(r, conn, pk, lamports, retries, delayMs, attempt, h).
        Suc retries - attempt)") auto

declare requestAirdropWithRetry.simps [simp del]

definition faucet_default_state :: "'n UserState" where
  "faucet_default_state =
     \<lparr>lastBalance = 0, lastPositions = [], lastSignatures = [], network = ''devnet'',
      lastFaucetTime = Some 0\<rparr>"

definition faucet_state_or_default :: "'n world \<Rightarrow> nat \<Rightarrow> 'n UserState" where
  "faucet_state_or_default w userId =
     (case states w userId of None \<Rightarrow> faucet_default_state | Some s \<Rightarrow> s)"

definition lastFaucetTime_or_0 :: "'n UserState \<Rightarrow> int" where
  "lastFaucetTime_or_0 state = (case lastFaucetTime state of None \<Rightarrow> 0 | Some t \<Rightarrow> t)"

datatype faucet_reply =
    WalletMissing
  | RateLimited int
  | AirdropSuccess string
  | AirdropUnavailable error

text \<open>
  The handler of the \<open>request_tokens\<close> button. \<open>now\<close> is \<open>Date.now()\<close> in milliseconds.
  The result is the reply sent to the user and the new global state. The source divides
  by 1000 and by 60 on doubles; for millisecond counts of the size of \<open>Date.now()\<close>
  the comparison with 3600 and the ceiling come out as on the exact quotients, which is
  what the model computes.
\<close>

definition request_tokens ::
  "'n remote \<Rightarrow> nat \<Rightarrow> int \<Rightarrow> session \<Rightarrow> 'n world \<Rightarrow> faucet_reply \<times> 'n world" where
  "request_tokens r userId now sess w =
     (case wallet sess of
        None \<Rightarrow> (WalletMissing, w)
      | Some walletData \<Rightarrow>
          (let state = faucet_state_or_default w userId;
               w1 = w\<lparr>states := (states w)(userId \<mapsto> state)\<rparr>;
               timeSinceLastFaucet = (of_int (now - lastFaucetTime_or_0 state) :: rat) / 1000;
               hourlyLimitSeconds = 60 * 60
           in if timeSinceLastFaucet < hourlyLimitSeconds then
                (RateLimited \<lceil>(hourlyLimitSeconds - timeSinceLastFaucet) / 60\<rceil>, w1)
              else
                (let pubkey = publicKey walletData;
                     attempt1 = requestAirdropWithRetry r Primary pubkey 2000000000 3 2000 1
                                  (history w1);
                     attempt2 = (case attempt1 of
                                   (Inr signature, h) \<Rightarrow> (Inr signature, h)
                                 | (Inl primaryError, h) \<Rightarrow>
                                     requestAirdropWithRetry r Fallback pubkey 2000000000 3 2000 1
                                       (h @ [PrimaryRpcFailed]))
                 in case attempt2 of
                      (Inr signature, h) \<Rightarrow>
                        (AirdropSuccess signature,
                         w1\<lparr>states := (states w1)(userId \<mapsto> state\<lparr>lastFaucetTime := Some now\<rparr>),
                            history := h\<rparr>)
                    | (Inl err, h) \<Rightarrow>
                        (AirdropUnavailable err,
                         w1\<lparr>history := h @ [RequestTokensError userId err]\<rparr>))))"

section \<open>Wallet import\<close>

definition startsWith :: "string \<Rightarrow> string \<Rightarrow> bool" where
  "startsWith s pre \<longleftrightarrow> take (length pre) s = pre"

definition is_space :: "char \<Rightarrow> bool" where
  "is_space c \<longleftrightarrow> c \<in> {CHR 0x09, CHR 0x0A, CHR 0x0B, CHR 0x0C, CHR 0x0D, CHR 0x20, CHR 0xA0}"

definition trim :: "string \<Rightarrow> string" where
  "trim s = rev (dropWhile is_space (rev (dropWhile is_space s)))"

datatype import_reply =
    WalletImported string rat
  | ImportFailed string
  | WalletMissingReply
  | NoReply

text \<open>
  The handler of a text message. The Base58 decoder (\<open>bs58.decode\<close>) and the key-pair
  constructor followed by \<open>publicKey.toString()\<close> (\<open>Keypair.fromSecretKey\<close>) come from
  packages outside the repository and are parameters; \<open>Inl\<close> is a thrown error. The
  session is the one the wallet-loading middleware hands to the handler.
\<close>

definition on_text ::
  "(string \<Rightarrow> error + 8 word list) \<Rightarrow> (8 word list \<Rightarrow> error + string) \<Rightarrow> 'n remote \<Rightarrow> nat
     \<Rightarrow> string \<Rightarrow> session \<Rightarrow> 'n world \<Rightarrow> import_reply \<times> session \<times> 'n world" where
  "on_text decode fromSecretKey r userId privateKeyText sess w =
     (if waitingForWalletImport sess \<and>
         (startsWith privateKeyText ''dev'' \<or> length privateKeyText > 80) then
        (let privateKeyBase58 = trim privateKeyText;
             failed = (\<lambda>err sess' w'.
               (ImportFailed (if message err = [] then ''Invalid key or unknown error''
                              else message err), sess',
                w'\<lparr>history := history w' @ [WalletImportError userId err]\<rparr>))
         in case decode privateKeyBase58 of
              Inl err \<Rightarrow> failed err sess w
            | Inr secretKey \<Rightarrow>
                if length secretKey \<noteq> 64 then
                  failed (Error ''Invalid private key length (must be 64 bytes).'') sess w
                else
                  (case fromSecretKey secretKey of
                     Inl err \<Rightarrow> failed err sess w
                   | Inr pk \<Rightarrow>
                       (let walletData = \<lparr>publicKey = pk, privateKey = privateKeyBase58\<rparr>;
                            sess' = \<lparr>wallet = Some walletData, waitingForWalletImport = False\<rparr>;
                            w' = w\<lparr>wallets := AList.update userId walletData (wallets w)\<rparr>
                        in case getBalance r (history w') Primary pk of
                             Inl err \<Rightarrow>
                               failed err sess' (w'\<lparr>history := history w' @ [RpcGetBalance Primary pk]\<rparr>)
                           | Inr balance \<Rightarrow>
                               (WalletImported pk balance, sess',
                                w'\<lparr>history := history w' @ [RpcGetBalance Primary pk]\<rparr>))))
      else if startsWith privateKeyText ''/'' then
        (if wallet sess = None then (WalletMissingReply, sess, w) else (NoReply, sess, w))
      else (NoReply, sess, w))"

text \<open>
  Base58 text to bytes, as the \<open>bs58\<close> package decodes it: each leading \<open>1\<close> is a zero
  byte, the remaining characters are the digits of a base-58 number written out in
  base 256. It instantiates \<open>decode\<close> at concrete inputs.
\<close>

definition b58_alphabet :: string where
  "b58_alphabet = ''123456789ABCDEFGHJKLMNPQRSTUVWXYZabcdefghijkmnopqrstuvwxyz''"

fun index_of :: "'a \<Rightarrow> 'a list \<Rightarrow> nat option" where
  "index_of x [] = None"
| "index_of x (y # ys) = (if x = y then Some 0 else map_option Suc (index_of x ys))"

fun b58_value :: "string \<Rightarrow> nat \<Rightarrow> nat option" where
  "b58_value [] acc = Some acc"
| "b58_value (c # cs) acc =
     (case index_of c b58_alphabet of
        None \<Rightarrow> None
      | Some d \<Rightarrow> b58_value cs (58 * acc + d))"

fun bytes_of :: "nat \<Rightarrow> 8 word list" where
  "bytes_of n = (if n = 0 then [] else bytes_of (n div 256) @ [of_nat (n mod 256)])"

declare bytes_of.simps [simp del]

definition bs58_decode :: "string \<Rightarrow> error + 8 word list" where
  "bs58_decode s =
     (let zeroes = length (takeWhile (\<lambda>c. c = CHR ''1'') s);
          digits = dropWhile (\<lambda>c. c = CHR ''1'') s
      in case b58_value digits 0 of
           None \<Rightarrow> Inl (Error ''Non-base58 character'')
         | Some v \<Rightarrow> Inr (replicate zeroes 0 @ bytes_of v))"

text \<open>
  A stand-in for the key-pair constructor at concrete inputs: the public key of a
  Solana secret key is its last 32 bytes; they are shown here one character per byte.
  The constructor of the library prints them in Base58 and rejects a key whose two halves
  do not belong together; what is proved of the import holds for any constructor.
\<close>

definition demo_fromSecretKey :: "8 word list \<Rightarrow> error + string" where
  "demo_fromSecretKey secretKey = Inr (map (\<lambda>b. char_of (unat b)) (drop 32 secretKey))"

section \<open>Decoders used in the proofs\<close>

text \<open>
  The printers above are shown to lose nothing by reading their output back: a decimal
  reader for \<open>decimal_digits\<close> and \<open>toFixed\<close>, and a reader of one escaped character
  for \<open>json_quote\<close>.
\<close>

definition digit_value :: "char \<Rightarrow> nat" where
  "digit_value c = of_char c - 48"

definition decimal_value :: "string \<Rightarrow> nat" where
  "decimal_value s = foldl (\<lambda>a c. 10 * a + digit_value c) 0 s"

definition strip_point :: "string \<Rightarrow> string" where
  "strip_point s = filter (\<lambda>c. c \<noteq> CHR ''.'') s"

definition hex_value :: "char \<Rightarrow> nat" where
  "hex_value c = (if (of_char c :: nat) < 58 then of_char c - 48 else of_char c - 87)"

definition unescape_char :: "char \<Rightarrow> char" where
  "unescape_char c =
     (if c = CHR ''b'' then CHR 0x08
      else if c = CHR ''t'' then CHR 0x09
      else if c = CHR ''n'' then CHR 0x0A
      else if c = CHR ''f'' then CHR 0x0C
      else if c = CHR ''r'' then CHR 0x0D
      else c)"

fun unescape_head :: "string \<Rightarrow> (char \<times> string) option" where
  "unescape_head [] = None"
| "unescape_head (c # t) =
     (if c = dquote then None
      else if c \<noteq> backslash then Some (c, t)
      else (case t of
              [] \<Rightarrow> None
            | x # t' \<Rightarrow>
                if x = CHR ''u'' then
                  (case t' of
                     a # b # h1 # h2 # t'' \<Rightarrow>
                       Some (char_of (16 * hex_value h1 + hex_value h2), t'')
                   | _ \<Rightarrow> None)
                else Some (unescape_char x, t')))"

text \<open>The position the mock DLMM client returns, after the service's renaming.\<close>

definition mock_position :: "int PositionData" where
  "mock_position =
     \<lparr>pool = ''mockPoolAddress'', lowerBin = 100, upperBin = 200, liquidity = 1000,
      feesEarned = 10\<rparr>"

section \<open>Reading the history\<close>

fun is_sleep :: "event \<Rightarrow> bool" where
  "is_sleep (Sleep d) = True"
| "is_sleep _ = False"

fun is_airdrop_request :: "event \<Rightarrow> bool" where
  "is_airdrop_request (RpcRequestAirdrop conn pk lamports) = True"
| "is_airdrop_request _ = False"

fun endpoint_of :: "event \<Rightarrow> endpoint option" where
  "endpoint_of (RpcGetBalance conn pk) = Some conn"
| "endpoint_of (RpcGetSignatures conn pk n) = Some conn"
| "endpoint_of (RpcRequestAirdrop conn pk lamports) = Some conn"
| "endpoint_of (RpcConfirmTransaction conn s) = Some conn"
| "endpoint_of _ = None"

definition attempts_made :: "event list \<Rightarrow> nat" where
  "attempts_made evs = length (filter is_airdrop_request evs)"

text \<open>The faucet time the rate limit reads for an owner.\<close>

definition faucet_time :: "'n world \<Rightarrow> nat \<Rightarrow> int" where
  "faucet_time w userId = lastFaucetTime_or_0 (faucet_state_or_default w userId)"

section \<open>Sample environments\<close>

text \<open>
  A remote whose balance read fails for one public key and returns \<open>b\<close> for the others,
  whose airdrop is refused on the primary endpoint and granted on the fallback, and whose
  other calls succeed with the mock position and one signature.
\<close>

definition sample_remote :: "string \<Rightarrow> rat \<Rightarrow> int remote" where
  "sample_remote bad b =
     \<lparr>getBalance = (\<lambda>h conn pk. if pk = bad then Inl (Error ''fetch failed'') else Inr b),
      getUserPositions = (\<lambda>h pk. Inr [mock_position]),
      getSignaturesForAddress = (\<lambda>h conn pk n. Inr [''sig1'']),
      requestAirdrop = (\<lambda>h conn pk lamports.
         if conn = Primary then Inl (Error ''rate limit'') else Inr ''airdropSig''),
      confirmTransaction = (\<lambda>h conn s. Inr None),
      sendMessage = (\<lambda>h userId text. None)\<rparr>"

text \<open>A remote for a wallet with balance \<open>b\<close>, no positions and no transactions.\<close>

definition fresh_remote :: "rat \<Rightarrow> int remote" where
  "fresh_remote b =
     \<lparr>getBalance = (\<lambda>h conn pk. Inr b),
      getUserPositions = (\<lambda>h pk. Inr []),
      getSignaturesForAddress = (\<lambda>h conn pk n. Inr []),
      requestAirdrop = (\<lambda>h conn pk lamports. Inr ''airdropSig''),
      confirmTransaction = (\<lambda>h conn s. Inr None),
      sendMessage = (\<lambda>h userId text. None)\<rparr>"

definition empty_world :: "int world" where
  "empty_world = \<lparr>wallets = [], states = Map.empty, history = []\<rparr>"

section \<open>Owners whose reads fail or succeed\<close>

text \<open>
  A read of the owner with public key \<open>pk\<close> fails whatever the history: the balance, the
  positions or the signatures.
\<close>

definition fetch_fails :: "'n remote \<Rightarrow> string \<Rightarrow> bool" where
  "fetch_fails r pk \<longleftrightarrow>
     (\<forall>h. isl (getBalance r h Primary pk))
     \<or> (\<forall>h. isl (getUserPositions r h pk))
     \<or> (\<forall>h. isl (getSignaturesForAddress r h Primary pk 5))"

text \<open>All reads of the owner succeed with the given values and its alerts are delivered.\<close>

definition fetch_succeeds ::
  "'n remote \<Rightarrow> nat \<Rightarrow> string \<Rightarrow> rat \<Rightarrow> 'n PositionData list \<Rightarrow> string list \<Rightarrow> bool" where
  "fetch_succeeds r userId pk b ps sg \<longleftrightarrow>
     (\<forall>h. getBalance r h Primary pk = Inr b)
     \<and> (\<forall>h. getUserPositions r h pk = Inr ps)
     \<and> (\<forall>h. getSignaturesForAddress r h Primary pk 5 = Inr sg)
     \<and> (\<forall>h t. sendMessage r h userId t = None)"

definition wallet_A :: WalletData where
  "wallet_A = \<lparr>publicKey = ''A'', privateKey = ''keyA''\<rparr>"

definition wallet_B :: WalletData where
  "wallet_B = \<lparr>publicKey = ''B'', privateKey = ''keyB''\<rparr>"

text \<open>Two remotes answer alike whatever the poll asks on the primary endpoint.\<close>

definition same_primary_reads :: "'n remote \<Rightarrow> 'n remote \<Rightarrow> bool" where
  "same_primary_reads r r' \<longleftrightarrow>
     (\<forall>h pk. getBalance r h Primary pk = getBalance r' h Primary pk)
     \<and> (\<forall>h pk n. getSignaturesForAddress r h Primary pk n
                  = getSignaturesForAddress r' h Primary pk n)
     \<and> getUserPositions r = getUserPositions r'
     \<and> sendMessage r = sendMessage r'"

text \<open>The two airdrop runs of the faucet handler, from a given history.\<close>

abbreviation primary_run ::
  "'n remote \<Rightarrow> WalletData \<Rightarrow> event list \<Rightarrow> (error + string) \<times> event list" where
  "primary_run r wd h \<equiv>
     requestAirdropWithRetry r Primary (publicKey wd) 2000000000 3 2000 1 h"

abbreviation fallback_run ::
  "'n remote \<Rightarrow> WalletData \<Rightarrow> event list \<Rightarrow> (error + string) \<times> event list" where
  "fallback_run r wd h \<equiv>
     requestAirdropWithRetry r Fallback (publicKey wd) 2000000000 3 2000 1
       (h @ [PrimaryRpcFailed])"

text \<open>A remote on which every airdrop is refused, on either endpoint.\<close>

definition dead_remote :: "int remote" where
  "dead_remote =
     \<lparr>getBalance = (\<lambda>h conn pk. Inr 1),
      getUserPositions = (\<lambda>h pk. Inr [mock_position]),
      getSignaturesForAddress = (\<lambda>h conn pk n. Inr [''sig1'']),
      requestAirdrop = (\<lambda>h conn pk lamports. Inl (Error ''rate limit'')),
      confirmTransaction = (\<lambda>h conn s. Inr None),
      sendMessage = (\<lambda>h userId text. None)\<rparr>"

definition session_A :: session where
  "session_A = \<lparr>wallet = Some wallet_A, waitingForWalletImport = False\<rparr>"

text \<open>The condition under which the text handler treats a message as a key to import.\<close>

definition import_gate :: "session \<Rightarrow> string \<Rightarrow> bool" where
  "import_gate sess privateKeyText \<longleftrightarrow>
     waitingForWalletImport sess \<and>
     (startsWith privateKeyText ''dev'' \<or> length privateKeyText > 80)"

definition pending_session :: session where
  "pending_session = \<lparr>wallet = None, waitingForWalletImport = True\<rparr>"

section \<open>Evaluation rules\<close>

lemma decimal_digits_small: "n < 10 \<Longrightarrow> decimal_digits n = [digit_char n]"
  by (simp add: decimal_digits.simps)

lemma decimal_digits_large:
  "10 \<le> n \<Longrightarrow> decimal_digits n = decimal_digits (n div 10) @ [digit_char (n mod 10)]"
  by (simp add: decimal_digits.simps)

lemma floor_rat_numeral:
  "\<lfloor>(numeral a / numeral b :: rat)\<rfloor> = numeral a div numeral b"
  using floor_divide_of_int_eq [of "numeral a" "numeral b", where ?'a = rat] by simp

lemma replicate_numeral: "replicate (numeral k) x = x # replicate (pred_numeral k) x"
  by (simp add: numeral_eq_Suc)

lemmas toFixed_eval = toFixed_def Let_def decimal_digits_small decimal_digits_large
  digit_char_def floor_rat_numeral replicate_numeral

section \<open>The printers on the mock data\<close>

lemma int_text_examples:
  "int_text 100 = ''100''" "int_text (- 443) = ''-443''" "int_text 0 = ''0''"
  by (simp_all add: int_text_def decimal_digits_small decimal_digits_large digit_char_def)

lemma JSON_stringify_mock:
  \<open>JSON_stringify int_text [position_key mock_position]
     = ''[{"p":"mockPoolAddress","l":100,"u":200,"liq":1000}]''\<close>
  by (simp add: JSON_stringify_def position_key_def mock_position_def json_quote_def
      json_key_def json_escape_char_def dquote_def backslash_def int_text_def
      decimal_digits_small decimal_digits_large digit_char_def)

lemma JSON_stringify_empty: "JSON_stringify ns [] = ''[]''"
  by (simp add: JSON_stringify_def)

lemma json_quote_escapes:
  \<open>json_quote [CHR ''a'', CHR 0x22, CHR 0x5C, CHR 0x0A, CHR 0x01]
     = [CHR 0x22, CHR ''a'', CHR 0x5C, CHR 0x22, CHR 0x5C, CHR 0x5C, CHR 0x5C, CHR ''n'',
        CHR 0x5C, CHR ''u'', CHR ''0'', CHR ''0'', CHR ''0'', CHR ''1'', CHR 0x22]\<close>
  by (simp add: json_quote_def json_escape_char_def dquote_def backslash_def hex_char_def)

lemma toFixed_examples:
  "toFixed 4 (5 / 2) = ''2.5000''" "toFixed 4 (1 / 20000) = ''0.0001''"
  "toFixed 4 (49999 / 1000000000) = ''0.0000''" "toFixed 4 18446744073 = ''18446744073.0000''"
  by (simp_all add: toFixed_eval)

section \<open>Decimal digits can be read back\<close>

lemma digit_cases:
  "d < 10 \<Longrightarrow> d = 0 \<or> d = 1 \<or> d = 2 \<or> d = 3 \<or> d = 4 \<or> d = 5 \<or> d = 6
    \<or> d = 7 \<or> d = 8 \<or> d = (9::nat)"
  by arith

lemma digit_value_digit_char: "d < 10 \<Longrightarrow> digit_value (digit_char d) = d"
  using digit_cases [of d] by (auto simp: digit_value_def digit_char_def)

lemma digit_char_in_digits: "d < 10 \<Longrightarrow> digit_char d \<in> set ''0123456789''"
  using digit_cases [of d] by (auto simp: digit_char_def)

lemma decimal_digits_chars: "set (decimal_digits n) \<subseteq> set ''0123456789''"
proof (induction n rule: decimal_digits.induct)
  case (1 n)
  show ?case
  proof (cases "n < 10")
    case True
    then show ?thesis
      using digit_char_in_digits [of n] by (simp add: decimal_digits_small)
  next
    case False
    then have "set (decimal_digits (n div 10)) \<subseteq> set ''0123456789''"
      using 1 by simp
    moreover have "digit_char (n mod 10) \<in> set ''0123456789''"
      by (rule digit_char_in_digits) simp
    ultimately show ?thesis
      using False by (simp add: decimal_digits_large)
  qed
qed

lemma decimal_digits_no_dot: "CHR ''.'' \<notin> set (decimal_digits n)"
  using decimal_digits_chars [of n] by auto

lemma decimal_digits_nonempty: "decimal_digits n \<noteq> []"
  by (cases "n < 10") (simp_all add: decimal_digits_small decimal_digits_large)

lemma decimal_value_snoc: "decimal_value (s @ [c]) = 10 * decimal_value s + digit_value c"
  by (simp add: decimal_value_def)

lemma decimal_value_digits: "decimal_value (decimal_digits n) = n"
proof (induction n rule: decimal_digits.induct)
  case (1 n)
  show ?case
  proof (cases "n < 10")
    case True
    then show ?thesis
      by (simp add: decimal_digits_small decimal_value_def digit_value_digit_char)
  next
    case False
    then have "decimal_value (decimal_digits (n div 10)) = n div 10"
      using 1 by simp
    with False show ?thesis
      by (simp add: decimal_digits_large decimal_value_snoc digit_value_digit_char)
  qed
qed

lemma decimal_value_zeros: "decimal_value (replicate z CHR ''0'' @ m) = decimal_value m"
proof -
  have "foldl (\<lambda>a c. 10 * a + digit_value c) 0 (replicate z CHR ''0'') = 0"
    by (induction z) (simp_all add: digit_value_def)
  then show ?thesis by (simp add: decimal_value_def)
qed

lemma strip_point_split:
  assumes "CHR ''.'' \<notin> set m"
  shows "strip_point (take j m @ ''.'' @ drop j m) = m"
proof -
  from assms have "filter (\<lambda>c. c \<noteq> CHR ''.'') m = m"
    by (auto simp: filter_id_conv)
  moreover have "strip_point (take j m @ ''.'' @ drop j m)
      = filter (\<lambda>c. c \<noteq> CHR ''.'') (take j m @ drop j m)"
    unfolding strip_point_def by (simp del: append_take_drop_id)
  ultimately show ?thesis by simp
qed

lemma toFixed_value:
  assumes "0 \<le> x"
  shows "decimal_value (strip_point (toFixed f x)) = nat \<lfloor>x * 10 ^ f + 1 / 2\<rfloor>"
proof -
  let ?n = "nat \<lfloor>x * 10 ^ f + 1 / 2\<rfloor>"
  let ?m = "decimal_digits ?n"
  have nodot: "CHR ''.'' \<notin> set ?m" by (rule decimal_digits_no_dot)
  show ?thesis
  proof (cases "f = 0")
    case True
    have "filter (\<lambda>c. c \<noteq> CHR ''.'') ?m = ?m"
      using nodot by (auto simp: filter_id_conv)
    moreover have "toFixed f x = ?m"
      using assms True by (simp add: toFixed_def Let_def)
    ultimately show ?thesis
      by (simp add: strip_point_def decimal_value_digits)
  next
    case False
    show ?thesis
    proof (cases "length ?m \<le> f")
      case True
      let ?p = "replicate (f + 1 - length ?m) CHR ''0'' @ ?m"
      have "CHR ''.'' \<notin> set ?p" using nodot by auto
      then have "strip_point (take (f + 1 - f) ?p @ ''.'' @ drop (f + 1 - f) ?p) = ?p"
        by (rule strip_point_split)
      moreover have "toFixed f x = take (f + 1 - f) ?p @ ''.'' @ drop (f + 1 - f) ?p"
        using assms False True by (simp add: toFixed_def Let_def)
      ultimately show ?thesis
        by (simp add: decimal_value_zeros decimal_value_digits)
    next
      case long: False
      have "strip_point (take (length ?m - f) ?m @ ''.'' @ drop (length ?m - f) ?m) = ?m"
        using nodot by (rule strip_point_split)
      moreover have "toFixed f x = take (length ?m - f) ?m @ ''.'' @ drop (length ?m - f) ?m"
        using assms False long by (simp add: toFixed_def Let_def)
      ultimately show ?thesis
        by (simp add: decimal_value_digits)
    qed
  qed
qed

lemma toFixed_eq_iff:
  assumes "0 \<le> x" and "0 \<le> y"
  shows "toFixed f x = toFixed f y \<longleftrightarrow> round_to_places f x = round_to_places f y"
proof -
  have nx: "0 \<le> \<lfloor>x * 10 ^ f + 1 / 2\<rfloor>" using assms(1) by simp
  have ny: "0 \<le> \<lfloor>y * 10 ^ f + 1 / 2\<rfloor>" using assms(2) by simp
  have r: "round_to_places f x = round_to_places f y
      \<longleftrightarrow> \<lfloor>x * 10 ^ f + 1 / 2\<rfloor> = \<lfloor>y * 10 ^ f + 1 / 2\<rfloor>"
    by (simp add: round_to_places_def round_def)
  show ?thesis
  proof
    assume "toFixed f x = toFixed f y"
    then have "decimal_value (strip_point (toFixed f x))
        = decimal_value (strip_point (toFixed f y))"
      by simp
    then have "nat \<lfloor>x * 10 ^ f + 1 / 2\<rfloor> = nat \<lfloor>y * 10 ^ f + 1 / 2\<rfloor>"
      using assms by (simp add: toFixed_value)
    with nx ny have "\<lfloor>x * 10 ^ f + 1 / 2\<rfloor> = \<lfloor>y * 10 ^ f + 1 / 2\<rfloor>" by linarith
    with r show "round_to_places f x = round_to_places f y" by simp
  next
    assume "round_to_places f x = round_to_places f y"
    with r have "\<lfloor>x * 10 ^ f + 1 / 2\<rfloor> = \<lfloor>y * 10 ^ f + 1 / 2\<rfloor>" by simp
    with assms show "toFixed f x = toFixed f y"
      unfolding toFixed_def by (simp add: not_less [symmetric])
  qed
qed

text \<open>
  The integer \<open>toFixed\<close> prints is the one ECMAScript asks for: no integer is closer to
  \<open>x * 10^f\<close>, and of two equally close ones it is the larger.
\<close>

lemma toFixed_nearest:
  fixes x :: rat
  shows "\<bar>of_int \<lfloor>x * 10 ^ f + 1 / 2\<rfloor> - x * 10 ^ f\<bar> \<le> \<bar>of_int k - x * 10 ^ f\<bar>"
    and "\<bar>of_int \<lfloor>x * 10 ^ f + 1 / 2\<rfloor> - x * 10 ^ f\<bar> = \<bar>of_int k - x * 10 ^ f\<bar>
      \<Longrightarrow> k \<le> \<lfloor>x * 10 ^ f + 1 / 2\<rfloor>"
proof -
  let ?y = "x * 10 ^ f"
  let ?n = "\<lfloor>?y + 1 / 2\<rfloor>"
  have lo: "of_int ?n \<le> ?y + 1 / 2" by (rule of_int_floor_le)
  have hi: "?y + 1 / 2 < of_int ?n + 1" by linarith
  show "\<bar>of_int ?n - ?y\<bar> \<le> \<bar>of_int k - ?y\<bar>"
  proof (cases "k \<le> ?n")
    case True
    show ?thesis
    proof (cases "k = ?n")
      case True
      then show ?thesis by simp
    next
      case False
      with True have "k \<le> ?n - 1" by simp
      then have "(of_int k :: rat) \<le> of_int (?n - 1)" by (simp only: of_int_le_iff)
      then have "(of_int k :: rat) \<le> of_int ?n - 1" by simp
      with lo hi show ?thesis by linarith
    qed
  next
    case False
    then have "?n + 1 \<le> k" by simp
    then have "(of_int (?n + 1) :: rat) \<le> of_int k" by (simp only: of_int_le_iff)
    then have "(of_int ?n :: rat) + 1 \<le> of_int k" by simp
    with lo hi show ?thesis by linarith
  qed
  show "k \<le> ?n" if eq: "\<bar>of_int ?n - ?y\<bar> = \<bar>of_int k - ?y\<bar>"
  proof (rule ccontr)
    assume "\<not> k \<le> ?n"
    then have "?n + 1 \<le> k" by simp
    then have "(of_int (?n + 1) :: rat) \<le> of_int k" by (simp only: of_int_le_iff)
    then have "(of_int ?n :: rat) + 1 \<le> of_int k" by simp
    with lo hi eq show False by linarith
  qed
qed

section \<open>C1: the balance alert\<close>

lemma balanceChanged_iff:
  assumes "0 \<le> lastBalance state" and "0 \<le> currentBalance"
  shows "balanceChanged state currentBalance \<longleftrightarrow>
     round_to_places 4 (lastBalance state) \<noteq> round_to_places 4 currentBalance"
  using toFixed_eq_iff [OF assms(2) assms(1), of 4] by (auto simp: balanceChanged_def Let_def)

lemma balance_example_changed:
  "balanceChanged (s\<lparr>lastBalance := 100004 / 100000\<rparr>) (100009 / 100000)"
  by (simp add: balanceChanged_def toFixed_eval)

lemma balance_example_unchanged:
  "\<not> balanceChanged (s\<lparr>lastBalance := 1000041 / 1000000\<rparr>) (1000044 / 1000000)"
  by (simp add: balanceChanged_def toFixed_eval)

text \<open>
  The same two examples on the doubles a JavaScript engine stores for the four decimal
  literals (numerators over \<open>2^52\<close>, \<open>2^51\<close> and \<open>2^50\<close>).
\<close>

lemma balance_example_changed_double:
  "balanceChanged (s\<lparr>lastBalance := 4503779771355591 / 4503599627370496\<rparr>)
     (4504004951336959 / 4503599627370496)"
  by (simp add: balanceChanged_def toFixed_eval)

lemma balance_example_unchanged_double:
  "\<not> balanceChanged (s\<lparr>lastBalance := 2251892137477609 / 2251799813685248\<rparr>)
     (1125949446438525 / 1125899906842624)"
  by (simp add: balanceChanged_def toFixed_eval)

text \<open>
  Claim C1. For all snapshots with balances in the range of the model (non-negative,
  below \<open>10^21\<close>), the poll reports a balance change exactly when the old and the new
  balance differ after rounding each to 4 decimal places. In particular 1.00004 against
  1.00009 is a change, and 1.000041 against 1.000044 is none.
\<close>

theorem balance_changed_iff_rounded_differs:
  assumes "0 \<le> lastBalance state" and "lastBalance state < 10 ^ 21"
    and "0 \<le> currentBalance" and "currentBalance < 10 ^ 21"
  shows "(balanceChanged state currentBalance \<longleftrightarrow>
            round_to_places 4 (lastBalance state) \<noteq> round_to_places 4 currentBalance)
       \<and> balanceChanged (s\<lparr>lastBalance := 100004 / 100000\<rparr>) (100009 / 100000)
       \<and> \<not> balanceChanged (s\<lparr>lastBalance := 1000041 / 1000000\<rparr>) (1000044 / 1000000)"
  using balanceChanged_iff [OF assms(1) assms(3)] balance_example_changed [of s]
    balance_example_unchanged [of s]
  by simp

theorem balance_changed_iff_rounded_differs_witness:
  "(0::rat) \<le> lastBalance ((default_state :: int UserState)\<lparr>lastBalance := 1\<rparr>)
   \<and> lastBalance ((default_state :: int UserState)\<lparr>lastBalance := 1\<rparr>) < 10 ^ 21
   \<and> (0::rat) \<le> 3 / 2 \<and> (3 / 2 :: rat) < 10 ^ 21
   \<and> balanceChanged ((default_state :: int UserState)\<lparr>lastBalance := 1\<rparr>) (3 / 2)
   \<and> round_to_places 4 1 \<noteq> round_to_places 4 (3 / 2)"
proof -
  let ?st = "(default_state :: int UserState)\<lparr>lastBalance := 1\<rparr>"
  have h1: "0 \<le> lastBalance ?st" and h2: "lastBalance ?st < 10 ^ 21" by simp_all
  have h3: "(0::rat) \<le> 3 / 2" and h4: "(3 / 2 :: rat) < 10 ^ 21" by simp_all
  have r: "round_to_places 4 1 \<noteq> round_to_places 4 (3 / 2)"
    by (simp add: round_to_places_def round_def floor_rat_numeral)
  from balance_changed_iff_rounded_differs [OF h1 h2 h3 h4, of ?st] r
  have "balanceChanged ?st (3 / 2)" by simp
  with r show ?thesis by simp
qed

section \<open>C2: the positions alert\<close>

lemma hex_cases: "d < 16 \<Longrightarrow> d = 0 \<or> d = 1 \<or> d = 2 \<or> d = 3 \<or> d = 4 \<or> d = 5 \<or> d = 6
    \<or> d = 7 \<or> d = 8 \<or> d = 9 \<or> d = 10 \<or> d = 11 \<or> d = 12 \<or> d = 13 \<or> d = 14 \<or> d = (15::nat)"
  by arith

lemma hex_value_hex_char: "d < 16 \<Longrightarrow> hex_value (hex_char d) = d"
  using hex_cases [of d] by (auto simp: hex_value_def hex_char_def)

lemma unescape_head_escape:
  "unescape_head (json_escape_char c @ t) = Some (c, t)"
proof -
  consider (special) "c \<in> {CHR 0x08, CHR 0x09, CHR 0x0A, CHR 0x0C, CHR 0x0D, dquote, backslash}"
    | (control) "c \<notin> {CHR 0x08, CHR 0x09, CHR 0x0A, CHR 0x0C, CHR 0x0D, dquote, backslash}"
        "(of_char c :: nat) < 32"
    | (plain) "c \<notin> {CHR 0x08, CHR 0x09, CHR 0x0A, CHR 0x0C, CHR 0x0D, dquote, backslash}"
        "\<not> (of_char c :: nat) < 32"
    by blast
  then show ?thesis
  proof cases
    case special
    then show ?thesis
      by (auto simp: json_escape_char_def unescape_char_def dquote_def backslash_def)
  next
    case control
    let ?n = "of_char c :: nat"
    have "?n div 16 < 16" "?n mod 16 < 16" using control(2) by auto
    then have "16 * hex_value (hex_char (?n div 16)) + hex_value (hex_char (?n mod 16)) = ?n"
      by (simp add: hex_value_hex_char)
    then have "char_of (16 * hex_value (hex_char (?n div 16)) + hex_value (hex_char (?n mod 16))) = c"
      by simp
    with control show ?thesis
      by (simp add: json_escape_char_def backslash_def dquote_def)
  next
    case plain
    then show ?thesis
      by (simp add: json_escape_char_def)
  qed
qed

lemma unescape_head_dquote: "unescape_head (dquote # t) = None"
  by simp

lemma json_escape_inj:
  "concat (map json_escape_char s) @ dquote # r = concat (map json_escape_char s') @ dquote # r'
   \<Longrightarrow> s = s' \<and> r = r'"
proof (induction s arbitrary: s')
  case Nil
  show ?case
  proof (cases s')
    case Nil
    with Nil.prems show ?thesis by simp
  next
    case (Cons c t)
    with Nil.prems have "unescape_head (dquote # r) = unescape_head (json_escape_char c @ (concat (map json_escape_char t) @ dquote # r'))"
      by simp
    then show ?thesis
      by (simp add: unescape_head_escape unescape_head_dquote del: unescape_head.simps)
  qed
next
  case (Cons c t)
  show ?case
  proof (cases s')
    case Nil
    with Cons.prems have "unescape_head (json_escape_char c @ (concat (map json_escape_char t) @ dquote # r)) = unescape_head (dquote # r')"
      by simp
    then show ?thesis
      by (simp add: unescape_head_escape unescape_head_dquote del: unescape_head.simps)
  next
    case (Cons c' t')
    with Cons.prems have "unescape_head (json_escape_char c @ (concat (map json_escape_char t) @ dquote # r))
        = unescape_head (json_escape_char c' @ (concat (map json_escape_char t') @ dquote # r'))"
      by simp
    then have "c = c'" and "concat (map json_escape_char t) @ dquote # r = concat (map json_escape_char t') @ dquote # r'"
      by (simp_all only: unescape_head_escape option.inject prod.inject)
    with Cons.IH [of t'] Cons show ?thesis by simp
  qed
qed

lemma number_text_delim:
  assumes ok: "number_text_ok ns"
    and c: "c = CHR '','' \<or> c = CHR ''}''" and d: "d = CHR '','' \<or> d = CHR ''}''"
    and eq: "ns x @ c # r = ns y @ d # r'"
  shows "x = y \<and> c = d \<and> r = r'"
proof -
  let ?P = "\<lambda>ch. ch \<noteq> CHR '','' \<and> ch \<noteq> CHR ''}''"
  have px: "\<forall>ch\<in>set (ns x). ?P ch" and py: "\<forall>ch\<in>set (ns y). ?P ch"
    using ok by (auto simp: number_text_ok_def)
  have "takeWhile ?P (ns x @ c # r) = ns x"
    using px c by (simp add: takeWhile_tail)
  moreover have "takeWhile ?P (ns y @ d # r') = ns y"
    using py d by (simp add: takeWhile_tail)
  ultimately have "ns x = ns y" using eq by simp
  then have "x = y" using ok by (auto simp: number_text_ok_def dest: injD)
  with eq show ?thesis by simp
qed

lemma json_object_inj:
  assumes ok: "number_text_ok ns"
    and eq: "json_object ns a @ r = json_object ns b @ r'"
  shows "a = b \<and> r = r'"
proof -
  obtain pl lo up lq where a: "a = (pl, lo, up, lq)" by (cases a) auto
  obtain pl' lo' up' lq' where b: "b = (pl', lo', up', lq')" by (cases b) auto
  let ?t1 = "\<lambda>lo up lq r. CHR '','' # json_key ''l'' @ ns lo @ CHR '','' # json_key ''u'' @ ns up @ CHR '','' # json_key ''liq'' @ ns lq @ CHR ''}'' # r"
  from eq have "concat (map json_escape_char pl) @ dquote # ?t1 lo up lq r
      = concat (map json_escape_char pl') @ dquote # ?t1 lo' up' lq' r'"
    by (simp add: a b json_quote_def json_key_def)
  then have p: "pl = pl'" and e1: "?t1 lo up lq r = ?t1 lo' up' lq' r'"
    using json_escape_inj by blast+
  from e1 have "ns lo @ CHR '','' # (json_key ''u'' @ ns up @ CHR '','' # json_key ''liq'' @ ns lq @ CHR ''}'' # r)
    = ns lo' @ CHR '','' # (json_key ''u'' @ ns up' @ CHR '','' # json_key ''liq'' @ ns lq' @ CHR ''}'' # r')"
    by (simp add: json_key_def)
  from number_text_delim [OF ok _ _ this]
  have l: "lo = lo'" and e2: "json_key ''u'' @ ns up @ CHR '','' # json_key ''liq'' @ ns lq @ CHR ''}'' # r
     = json_key ''u'' @ ns up' @ CHR '','' # json_key ''liq'' @ ns lq' @ CHR ''}'' # r'"
    by simp_all
  from e2 have "ns up @ CHR '','' # (json_key ''liq'' @ ns lq @ CHR ''}'' # r)
     = ns up' @ CHR '','' # (json_key ''liq'' @ ns lq' @ CHR ''}'' # r')"
    by (simp add: json_key_def)
  from number_text_delim [OF ok _ _ this]
  have u: "up = up'" and e3: "json_key ''liq'' @ ns lq @ CHR ''}'' # r = json_key ''liq'' @ ns lq' @ CHR ''}'' # r'"
    by simp_all
  from e3 have "ns lq @ CHR ''}'' # r = ns lq' @ CHR ''}'' # r'"
    by (simp add: json_key_def)
  from number_text_delim [OF ok _ _ this]
  have "lq = lq'" and "r = r'" by simp_all
  with p l u a b show ?thesis by simp
qed

lemma json_object_head: "\<exists>t. json_object ns a = CHR ''{'' # t"
  by (cases a) simp

lemma json_array_rest_inj:
  assumes ok: "number_text_ok ns"
  shows "json_array_rest (map (json_object ns) xs) = json_array_rest (map (json_object ns) ys)
    \<Longrightarrow> xs = ys"
proof (induction xs arbitrary: ys)
  case Nil
  then show ?case by (cases ys) auto
next
  case (Cons x xs)
  show ?case
  proof (cases ys)
    case Nil
    with Cons.prems show ?thesis by simp
  next
    case (Cons y ys')
    with Cons.prems have "json_object ns x @ json_array_rest (map (json_object ns) xs)
        = json_object ns y @ json_array_rest (map (json_object ns) ys')"
      by simp
    from json_object_inj [OF ok this] Cons.IH [of ys'] Cons show ?thesis by simp
  qed
qed

lemma JSON_stringify_inj:
  assumes ok: "number_text_ok ns"
    and eq: "JSON_stringify ns xs = JSON_stringify ns ys"
  shows "xs = ys"
proof (cases xs)
  case Nil
  show ?thesis
  proof (cases ys)
    case Nil
    with \<open>xs = []\<close> show ?thesis by simp
  next
    case (Cons y ys')
    obtain t where "json_object ns y = CHR ''{'' # t" using json_object_head by blast
    with eq \<open>xs = []\<close> Cons show ?thesis by (simp add: JSON_stringify_def)
  qed
next
  case (Cons x xs')
  note xs = Cons
  show ?thesis
  proof (cases ys)
    case Nil
    obtain t where "json_object ns x = CHR ''{'' # t" using json_object_head by blast
    with eq xs Nil show ?thesis by (simp add: JSON_stringify_def)
  next
    case (Cons y ys')
    with eq xs have e: "json_object ns x @ json_array_rest (map (json_object ns) xs')
        = json_object ns y @ json_array_rest (map (json_object ns) ys')"
      by (simp add: JSON_stringify_def)
    from json_object_inj [OF ok e] have "x = y"
      and "json_array_rest (map (json_object ns) xs') = json_array_rest (map (json_object ns) ys')"
      by simp_all
    with json_array_rest_inj [OF ok] xs Cons show ?thesis by simp
  qed
qed

lemma positionsChanged_iff:
  assumes "number_text_ok ns"
  shows "positionsChanged ns cur old \<longleftrightarrow> map position_key cur \<noteq> map position_key old"
  using JSON_stringify_inj [OF assms] by (auto simp: positionsChanged_def)

lemma position_key_fees: "position_key (q\<lparr>feesEarned := v\<rparr>) = position_key q"
  by (simp add: position_key_def)

lemma int_text_inj: "inj int_text"
proof (rule injI)
  fix i j :: int
  assume eq: "int_text i = int_text j"
  have nominus: "\<And>n t. decimal_digits n \<noteq> CHR ''-'' # t"
  proof
    fix n t assume "decimal_digits n = CHR ''-'' # t"
    then have "CHR ''-'' \<in> set (decimal_digits n)" by simp
    with decimal_digits_chars [of n] show False by auto
  qed
  have dig: "\<And>m n. decimal_digits m = decimal_digits n \<Longrightarrow> m = n"
    using decimal_value_digits by metis
  show "i = j"
  proof (cases "i < 0")
    case True
    show ?thesis
    proof (cases "j < 0")
      case True
      with \<open>i < 0\<close> eq have "nat (- i) = nat (- j)" by (auto simp: int_text_def dest: dig)
      with True \<open>i < 0\<close> show ?thesis by simp
    next
      case False
      with \<open>i < 0\<close> eq nominus [of "nat j" "decimal_digits (nat (- i))"] show ?thesis
        by (simp add: int_text_def)
    qed
  next
    case False
    show ?thesis
    proof (cases "j < 0")
      case True
      with False eq nominus [of "nat i" "decimal_digits (nat (- j))"] show ?thesis
        by (simp add: int_text_def)
    next
      case j: False
      with False eq have "nat i = nat j" by (auto simp: int_text_def dest: dig)
      with False j show ?thesis by simp
    qed
  qed
qed

lemma number_text_ok_int_text: "number_text_ok int_text"
proof -
  have "CHR '','' \<notin> set (int_text x) \<and> CHR ''}'' \<notin> set (int_text x)" for x
    using decimal_digits_chars [of "nat x"] decimal_digits_chars [of "nat (- x)"]
    by (auto simp: int_text_def)
  with int_text_inj show ?thesis by (simp add: number_text_ok_def)
qed

text \<open>
  Claim C2. For a number printer that prints different numbers differently and uses
  neither a comma nor a closing brace (JavaScript's on the finite numbers of a position,
  the two zeros taken as one), the poll reports changed positions exactly when the lists
  of (pool, lowerBin, upperBin, liquidity) tuples of the new and the old positions, in list
  order, differ. Changing only feesEarned is no change; changing the pool, the lowerBin,
  the upperBin or the liquidity of any position is one, and so is a different number of
  positions or two positions with different tuples in exchanged places.
\<close>

theorem positions_changed_iff_projection_differs:
  assumes "number_text_ok ns"
  shows "(positionsChanged ns cur old \<longleftrightarrow>
            map (\<lambda>q. (pool q, lowerBin q, upperBin q, liquidity q)) cur
              \<noteq> map (\<lambda>q. (pool q, lowerBin q, upperBin q, liquidity q)) old)
       \<and> \<not> positionsChanged ns (map (\<lambda>q. q\<lparr>feesEarned := fee q\<rparr>) old) old
       \<and> (i < length old \<and> pl \<noteq> pool (old ! i) \<longrightarrow>
            positionsChanged ns (old[i := (old ! i)\<lparr>pool := pl\<rparr>]) old)
       \<and> (i < length old \<and> v \<noteq> lowerBin (old ! i) \<longrightarrow>
            positionsChanged ns (old[i := (old ! i)\<lparr>lowerBin := v\<rparr>]) old)
       \<and> (i < length old \<and> v \<noteq> upperBin (old ! i) \<longrightarrow>
            positionsChanged ns (old[i := (old ! i)\<lparr>upperBin := v\<rparr>]) old)
       \<and> (i < length old \<and> v \<noteq> liquidity (old ! i) \<longrightarrow>
            positionsChanged ns (old[i := (old ! i)\<lparr>liquidity := v\<rparr>]) old)
       \<and> (length cur \<noteq> length old \<longrightarrow> positionsChanged ns cur old)
       \<and> ((pool p1, lowerBin p1, upperBin p1, liquidity p1)
             \<noteq> (pool p2, lowerBin p2, upperBin p2, liquidity p2) \<longrightarrow>
            positionsChanged ns [p1, p2] [p2, p1])"
proof -
  have key: "position_key = (\<lambda>q. (pool q, lowerBin q, upperBin q, liquidity q))"
    by (simp add: fun_eq_iff position_key_def)
  note iff = positionsChanged_iff [OF assms]
  have tuples: "positionsChanged ns cur old \<longleftrightarrow>
            map (\<lambda>q. (pool q, lowerBin q, upperBin q, liquidity q)) cur
              \<noteq> map (\<lambda>q. (pool q, lowerBin q, upperBin q, liquidity q)) old"
    using iff [of cur old] by (simp only: key)
  have fees: "\<not> positionsChanged ns (map (\<lambda>q. q\<lparr>feesEarned := fee q\<rparr>) old) old"
    by (simp add: iff position_key_fees comp_def)
  have upd: "positionsChanged ns (old[i := q]) old"
    if "i < length old" and "position_key q \<noteq> position_key (old ! i)" for q
  proof -
    have "map position_key (old[i := q]) ! i \<noteq> map position_key old ! i"
      using that by simp
    then have "map position_key (old[i := q]) \<noteq> map position_key old" by metis
    then show ?thesis by (simp add: iff)
  qed
  have pl: "positionsChanged ns (old[i := (old ! i)\<lparr>pool := pl\<rparr>]) old"
    if "i < length old" and "pl \<noteq> pool (old ! i)"
    using that by (intro upd) (simp_all add: position_key_def)
  have lo: "positionsChanged ns (old[i := (old ! i)\<lparr>lowerBin := v\<rparr>]) old"
    if "i < length old" and "v \<noteq> lowerBin (old ! i)"
    using that by (intro upd) (simp_all add: position_key_def)
  have up: "positionsChanged ns (old[i := (old ! i)\<lparr>upperBin := v\<rparr>]) old"
    if "i < length old" and "v \<noteq> upperBin (old ! i)"
    using that by (intro upd) (simp_all add: position_key_def)
  have lq: "positionsChanged ns (old[i := (old ! i)\<lparr>liquidity := v\<rparr>]) old"
    if "i < length old" and "v \<noteq> liquidity (old ! i)"
    using that by (intro upd) (simp_all add: position_key_def)
  have len: "positionsChanged ns cur old" if "length cur \<noteq> length old"
  proof -
    from that have "map position_key cur \<noteq> map position_key old"
      by (metis length_map)
    then show ?thesis by (simp add: iff)
  qed
  have swap: "positionsChanged ns [p1, p2] [p2, p1]"
    if "(pool p1, lowerBin p1, upperBin p1, liquidity p1)
          \<noteq> (pool p2, lowerBin p2, upperBin p2, liquidity p2)"
    using that by (simp add: iff position_key_def)
  from tuples fees pl lo up lq len swap show ?thesis by blast
qed

theorem positions_changed_iff_projection_differs_witness:
  "number_text_ok int_text
   \<and> (0::nat) < length [mock_position]
   \<and> ''otherPool'' \<noteq> pool ([mock_position] ! 0)
   \<and> (101::int) \<noteq> lowerBin ([mock_position] ! 0)
   \<and> (101::int) \<noteq> upperBin ([mock_position] ! 0)
   \<and> (101::int) \<noteq> liquidity ([mock_position] ! 0)
   \<and> length [mock_position, mock_position] \<noteq> length [mock_position]
   \<and> (pool mock_position, lowerBin mock_position, upperBin mock_position,
        liquidity mock_position)
       \<noteq> (pool (mock_position\<lparr>upperBin := 101\<rparr>), lowerBin (mock_position\<lparr>upperBin := 101\<rparr>),
           upperBin (mock_position\<lparr>upperBin := 101\<rparr>),
           liquidity (mock_position\<lparr>upperBin := 101\<rparr>))
   \<and> positionsChanged int_text [mock_position\<lparr>pool := ''otherPool''\<rparr>] [mock_position]
   \<and> positionsChanged int_text [mock_position\<lparr>lowerBin := 101\<rparr>] [mock_position]
   \<and> positionsChanged int_text [mock_position\<lparr>upperBin := 101\<rparr>] [mock_position]
   \<and> positionsChanged int_text [mock_position\<lparr>liquidity := 101\<rparr>] [mock_position]
   \<and> positionsChanged int_text [mock_position, mock_position] [mock_position]
   \<and> positionsChanged int_text [mock_position, mock_position\<lparr>upperBin := 101\<rparr>]
        [mock_position\<lparr>upperBin := 101\<rparr>, mock_position]
   \<and> \<not> positionsChanged int_text [mock_position\<lparr>feesEarned := 11\<rparr>] [mock_position]"
proof -
  note inst = positions_changed_iff_projection_differs
      [OF number_text_ok_int_text, of "[mock_position, mock_position]" "[mock_position]"
        "\<lambda>q. 11" 0 "''otherPool''" 101 mock_position "mock_position\<lparr>upperBin := 101\<rparr>"]
  have h: "(0::nat) < length [mock_position]"
    "''otherPool'' \<noteq> pool ([mock_position] ! 0)"
    "(101::int) \<noteq> lowerBin ([mock_position] ! 0)"
    "(101::int) \<noteq> upperBin ([mock_position] ! 0)"
    "(101::int) \<noteq> liquidity ([mock_position] ! 0)"
    "length [mock_position, mock_position] \<noteq> length [mock_position]"
    "(pool mock_position, lowerBin mock_position, upperBin mock_position,
        liquidity mock_position)
       \<noteq> (pool (mock_position\<lparr>upperBin := 101\<rparr>), lowerBin (mock_position\<lparr>upperBin := 101\<rparr>),
           upperBin (mock_position\<lparr>upperBin := 101\<rparr>),
           liquidity (mock_position\<lparr>upperBin := 101\<rparr>))"
    by (simp_all add: mock_position_def)
  have a: "positionsChanged int_text [mock_position\<lparr>pool := ''otherPool''\<rparr>] [mock_position]"
    using inst h by simp
  have b: "positionsChanged int_text [mock_position\<lparr>lowerBin := 101\<rparr>] [mock_position]"
    using inst h by simp
  have c: "positionsChanged int_text [mock_position\<lparr>upperBin := 101\<rparr>] [mock_position]"
    using inst h by simp
  have d: "positionsChanged int_text [mock_position\<lparr>liquidity := 101\<rparr>] [mock_position]"
    using inst h by simp
  have e: "positionsChanged int_text [mock_position, mock_position] [mock_position]"
    using inst h by blast
  have f: "positionsChanged int_text [mock_position, mock_position\<lparr>upperBin := 101\<rparr>]
        [mock_position\<lparr>upperBin := 101\<rparr>, mock_position]"
    using inst h by blast
  have g: "\<not> positionsChanged int_text [mock_position\<lparr>feesEarned := 11\<rparr>] [mock_position]"
    using inst by simp
  from number_text_ok_int_text h a b c d e f g show ?thesis by (intro conjI)
qed

section \<open>C3: the signature alert\<close>

lemma signatureAlert_iff: "signatureAlert cur old \<longleftrightarrow> (\<exists>s\<in>set cur. s \<notin> set old)"
  by (simp add: signatureAlert_def some_def includes_js_def list_ex_iff)



section \<open>C5: the retry loops\<close>

lemma airdrop_attempt_events:
  "\<exists>evs. snd (airdrop_attempt r conn pk l h) = h @ evs \<and> filter is_sleep evs = []
     \<and> attempts_made evs = 1 \<and> (\<forall>ev\<in>set evs. endpoint_of ev = Some conn)"
  by (auto simp: airdrop_attempt_def attempts_made_def Let_def split: sum.splits option.splits)

lemma retry_step_ok:
  "attempt \<le> retries \<Longrightarrow> airdrop_attempt r conn pk l h = (Inr s, h1) \<Longrightarrow>
   requestAirdropWithRetry r conn pk l retries d attempt h = (Inr s, h1)"
  by (simp add: requestAirdropWithRetry.simps)

lemma retry_step_last:
  "airdrop_attempt r conn pk l h = (Inl err, h1) \<Longrightarrow>
   requestAirdropWithRetry r conn pk l retries d retries h
     = (Inl err, h1 @ [AirdropAttemptFailed retries conn (message err)])"
  by (simp add: requestAirdropWithRetry.simps [of _ _ _ _ retries _ retries])

lemma retry_step_again:
  "attempt < retries \<Longrightarrow> airdrop_attempt r conn pk l h = (Inl err, h1) \<Longrightarrow>
   requestAirdropWithRetry r conn pk l retries d attempt h
     = requestAirdropWithRetry r conn pk l retries d (attempt + 1)
         (h1 @ [AirdropAttemptFailed attempt conn (message err), Sleep (d * 2 ^ (attempt - 1))])"
  by (simp add: requestAirdropWithRetry.simps [of _ _ _ _ retries _ attempt])

lemma retry_step_none:
  "retries < attempt \<Longrightarrow>
   requestAirdropWithRetry r conn pk l retries d attempt h
     = (Inl (Error ''Airdrop failed after all retries.''), h)"
  by (simp add: requestAirdropWithRetry.simps)

lemma retry_run:
  assumes "requestAirdropWithRetry r conn pk l retries d attempt h = (res, h')"
    and "1 \<le> attempt" and "attempt \<le> retries"
  shows "\<exists>evs. h' = h @ evs
      \<and> 1 \<le> attempts_made evs \<and> attempts_made evs \<le> retries + 1 - attempt
      \<and> filter is_sleep evs
          = map (\<lambda>k. Sleep (d * 2 ^ k)) [attempt - 1 ..< attempt - 1 + (attempts_made evs - 1)]
      \<and> (\<forall>ev\<in>set evs. endpoint_of ev = Some conn \<or> endpoint_of ev = None)
      \<and> (\<forall>err. res = Inl err \<longrightarrow>
            attempts_made evs = retries + 1 - attempt
            \<and> (\<exists>h0 h1. airdrop_attempt r conn pk l h0 = (Inl err, h1)
                  \<and> h' = h1 @ [AirdropAttemptFailed retries conn (message err)]))"
  using assms
proof (induction r conn pk l retries d attempt h arbitrary: res h'
       rule: requestAirdropWithRetry.induct)
  case (1 r conn pk l retries d attempt h)
  obtain a h1 where att: "airdrop_attempt r conn pk l h = (a, h1)"
    by (cases "airdrop_attempt r conn pk l h")
  obtain evs0 where evs0: "h1 = h @ evs0" "filter is_sleep evs0 = []" "attempts_made evs0 = 1"
    "\<forall>ev\<in>set evs0. endpoint_of ev = Some conn"
    using airdrop_attempt_events [of r conn pk l h] att by auto
  show ?case
  proof (cases a)
    case (Inr s)
    with att "1.prems" have "res = Inr s" "h' = h1"
      using retry_step_ok [of attempt retries r conn pk l h s h1 d] by simp_all
    with evs0 "1.prems"(3) show ?thesis by (intro exI [of _ evs0]) auto
  next
    case (Inl err)
    show ?thesis
    proof (cases "attempt = retries")
      case True
      with att Inl "1.prems" have r: "res = Inl err"
        "h' = h1 @ [AirdropAttemptFailed retries conn (message err)]"
        using retry_step_last [of r conn pk l h err h1 retries d] by simp_all
      let ?evs = "evs0 @ [AirdropAttemptFailed retries conn (message err)]"
      have "h' = h @ ?evs" using r evs0 by simp
      moreover have "attempts_made ?evs = 1" using evs0 by (simp add: attempts_made_def)
      moreover have "filter is_sleep ?evs = []" using evs0 by simp
      moreover have "\<forall>ev\<in>set ?evs. endpoint_of ev = Some conn \<or> endpoint_of ev = None"
        using evs0 by auto
      moreover have "\<exists>h0 h1'. airdrop_attempt r conn pk l h0 = (Inl err, h1')
          \<and> h' = h1' @ [AirdropAttemptFailed retries conn (message err)]"
        using att Inl r by blast
      ultimately show ?thesis using True r "1.prems"
        by (intro exI [of _ ?evs]) auto
    next
      case False
      with "1.prems" have lt: "attempt < retries" by simp
      let ?h2 = "h1 @ [AirdropAttemptFailed attempt conn (message err)]"
      let ?h3 = "?h2 @ [Sleep (d * 2 ^ (attempt - 1))]"
      have rec: "requestAirdropWithRetry r conn pk l retries d (attempt + 1) ?h3 = (res, h')"
        using retry_step_again [OF lt, of r conn pk l h err h1 d] att Inl "1.prems" by simp
      have "\<exists>evs. h' = ?h3 @ evs
        \<and> 1 \<le> attempts_made evs \<and> attempts_made evs \<le> retries + 1 - (attempt + 1)
        \<and> filter is_sleep evs
            = map (\<lambda>k. Sleep (d * 2 ^ k))
                [attempt + 1 - 1 ..< attempt + 1 - 1 + (attempts_made evs - 1)]
        \<and> (\<forall>ev\<in>set evs. endpoint_of ev = Some conn \<or> endpoint_of ev = None)
        \<and> (\<forall>err. res = Inl err \<longrightarrow>
              attempts_made evs = retries + 1 - (attempt + 1)
              \<and> (\<exists>h0 h1. airdrop_attempt r conn pk l h0 = (Inl err, h1)
                    \<and> h' = h1 @ [AirdropAttemptFailed retries conn (message err)]))"
        using "1.prems" lt False att Inl
        by (intro "1.IH" [OF _ _ _ refl _ rec]) simp_all
      then obtain evs where evs: "h' = ?h3 @ evs"
        "1 \<le> attempts_made evs" "attempts_made evs \<le> retries + 1 - (attempt + 1)"
        "filter is_sleep evs
            = map (\<lambda>k. Sleep (d * 2 ^ k)) [attempt ..< attempt + (attempts_made evs - 1)]"
        "\<forall>ev\<in>set evs. endpoint_of ev = Some conn \<or> endpoint_of ev = None"
        "\<forall>err. res = Inl err \<longrightarrow>
              attempts_made evs = retries + 1 - (attempt + 1)
              \<and> (\<exists>h0 h1. airdrop_attempt r conn pk l h0 = (Inl err, h1)
                    \<and> h' = h1 @ [AirdropAttemptFailed retries conn (message err)])"
        by auto
      let ?evs = "evs0 @ [AirdropAttemptFailed attempt conn (message err),
                          Sleep (d * 2 ^ (attempt - 1))] @ evs"
      have n: "attempts_made ?evs = 1 + attempts_made evs"
        using evs0 by (simp add: attempts_made_def)
      have up: "[attempt - 1 ..< attempt - 1 + attempts_made evs]
          = (attempt - 1) # [attempt ..< attempt + (attempts_made evs - 1)]"
      proof -
        have "attempt - 1 < attempt - 1 + attempts_made evs" using evs(2) by simp
        then have c: "[attempt - 1 ..< attempt - 1 + attempts_made evs]
            = (attempt - 1) # [Suc (attempt - 1) ..< attempt - 1 + attempts_made evs]"
          by (rule upt_conv_Cons)
        have e1: "Suc (attempt - 1) = attempt" using "1.prems"(2) by simp
        have e2: "attempt - 1 + attempts_made evs = attempt + (attempts_made evs - 1)"
          using evs(2) "1.prems"(2) by simp
        from c have "[attempt - 1 ..< attempt - 1 + attempts_made evs]
            = (attempt - 1) # [attempt ..< attempt - 1 + attempts_made evs]"
          by (simp only: e1)
        then show ?thesis by (simp only: e2 [symmetric])
      qed
      have "h' = h @ ?evs" using evs(1) evs0(1) by simp
      moreover have "1 \<le> attempts_made ?evs" using n by simp
      moreover have "attempts_made ?evs \<le> retries + 1 - attempt" using n evs(3) lt by simp
      moreover have "filter is_sleep ?evs
          = map (\<lambda>k. Sleep (d * 2 ^ k)) [attempt - 1 ..< attempt - 1 + (attempts_made ?evs - 1)]"
        using evs0(2) evs(4) n up by simp
      moreover have "\<forall>ev\<in>set ?evs. endpoint_of ev = Some conn \<or> endpoint_of ev = None"
        using evs0(4) evs(5) by auto
      moreover have "\<forall>err. res = Inl err \<longrightarrow>
            attempts_made ?evs = retries + 1 - attempt
            \<and> (\<exists>h0 h1. airdrop_attempt r conn pk l h0 = (Inl err, h1)
                  \<and> h' = h1 @ [AirdropAttemptFailed retries conn (message err)])"
        using evs(6) n lt by auto
      ultimately show ?thesis by (intro exI [of _ ?evs]) blast
    qed
  qed
qed

lemma fetch_with_retry_unrolled:
  "fetch_with_retry call ev cur 0 h =
     (case call h of
        Inr v \<Rightarrow> (Inr v, h @ [ev])
      | Inl e1 \<Rightarrow>
          (case call (h @ [ev, Sleep 2000]) of
             Inr v \<Rightarrow> (Inr v, h @ [ev, Sleep 2000, ev])
           | Inl e2 \<Rightarrow>
               (case call (h @ [ev, Sleep 2000, ev, Sleep 2000]) of
                  Inr v \<Rightarrow> (Inr v, h @ [ev, Sleep 2000, ev, Sleep 2000, ev])
                | Inl e3 \<Rightarrow> (Inl e3, h @ [ev, Sleep 2000, ev, Sleep 2000, ev]))))"
  by (simp add: fetch_with_retry.simps [of _ _ _ 0] fetch_with_retry.simps [of _ _ _ 1]
      fetch_with_retry.simps [of _ _ _ "Suc 0"]
      fetch_with_retry.simps [of _ _ _ "Suc (Suc 0)"] split: sum.splits)

lemma sample_airdrop_primary:
  "requestAirdropWithRetry (sample_remote bad b) Primary pk 2000000000 3 2000 1 h =
     (Inl (Error ''rate limit''),
      h @ [RpcRequestAirdrop Primary pk 2000000000, AirdropAttemptFailed 1 Primary ''rate limit'',
           Sleep 2000,
           RpcRequestAirdrop Primary pk 2000000000, AirdropAttemptFailed 2 Primary ''rate limit'',
           Sleep 4000,
           RpcRequestAirdrop Primary pk 2000000000, AirdropAttemptFailed 3 Primary ''rate limit''])"
proof -
  have a: "airdrop_attempt (sample_remote bad b) Primary pk 2000000000 h'
      = (Inl (Error ''rate limit''), h' @ [RpcRequestAirdrop Primary pk 2000000000])" for h'
    by (simp add: airdrop_attempt_def sample_remote_def)
  let ?f = "requestAirdropWithRetry (sample_remote bad b) Primary pk 2000000000 3 2000"
  have s1: "?f 1 h' = ?f 2 (h' @ [RpcRequestAirdrop Primary pk 2000000000,
      AirdropAttemptFailed 1 Primary ''rate limit'', Sleep 2000])" for h'
    using retry_step_again [OF _ a, of 1 3 2000 h'] by (simp add: numeral_2_eq_2)
  have s2: "?f 2 h' = ?f 3 (h' @ [RpcRequestAirdrop Primary pk 2000000000,
      AirdropAttemptFailed 2 Primary ''rate limit'', Sleep 4000])" for h'
    using retry_step_again [OF _ a, of 2 3 2000 h'] by simp
  have s3: "?f 3 h' = (Inl (Error ''rate limit''), h' @ [RpcRequestAirdrop Primary pk 2000000000,
      AirdropAttemptFailed 3 Primary ''rate limit''])" for h'
    using retry_step_last [OF a, of 3 2000 h'] by simp
  show ?thesis by (simp only: s1 s2 s3 append_assoc append.simps)
qed

lemma sample_airdrop_fallback:
  "requestAirdropWithRetry (sample_remote bad b) Fallback pk 2000000000 3 2000 1 h =
     (Inr ''airdropSig'',
      h @ [RpcRequestAirdrop Fallback pk 2000000000, RpcConfirmTransaction Fallback ''airdropSig''])"
proof -
  have a: "airdrop_attempt (sample_remote bad b) Fallback pk 2000000000 h
      = (Inr ''airdropSig'', h @ [RpcRequestAirdrop Fallback pk 2000000000,
           RpcConfirmTransaction Fallback ''airdropSig''])"
    by (simp add: airdrop_attempt_def sample_remote_def)
  show ?thesis
    using retry_step_ok [OF _ a, of 1 3 2000] by simp
qed

text \<open>
  Claim C5. The airdrop retry makes at least one and at most N attempts; after the k-th
  failed attempt that is not the last it sleeps \<open>D * 2^(k-1)\<close>; when it fails, all N
  attempts were made and the error is the one of the last attempt. The read loop of the
  poll makes at most 3 attempts with a sleep of 2000 ms between them and fails with the
  error of the third.
\<close>

theorem retry_budget_backoff_and_last_error:
  "(1 \<le> retries \<and> requestAirdropWithRetry r conn pk l retries d 1 h = (res, h') \<longrightarrow>
      (\<exists>evs. h' = h @ evs
         \<and> 1 \<le> attempts_made evs \<and> attempts_made evs \<le> retries
         \<and> filter is_sleep evs = map (\<lambda>k. Sleep (d * 2 ^ k)) [0 ..< attempts_made evs - 1]
         \<and> (\<forall>err. res = Inl err \<longrightarrow>
               attempts_made evs = retries
               \<and> (\<exists>h0 h1. airdrop_attempt r conn pk l h0 = (Inl err, h1)
                     \<and> h' = h1 @ [AirdropAttemptFailed retries conn (message err)]))))
   \<and> fetch_with_retry call ev cur 0 h =
       (case call h of
          Inr v \<Rightarrow> (Inr v, h @ [ev])
        | Inl e1 \<Rightarrow>
            (case call (h @ [ev, Sleep 2000]) of
               Inr v \<Rightarrow> (Inr v, h @ [ev, Sleep 2000, ev])
             | Inl e2 \<Rightarrow>
                 (case call (h @ [ev, Sleep 2000, ev, Sleep 2000]) of
                    Inr v \<Rightarrow> (Inr v, h @ [ev, Sleep 2000, ev, Sleep 2000, ev])
                  | Inl e3 \<Rightarrow> (Inl e3, h @ [ev, Sleep 2000, ev, Sleep 2000, ev]))))"
proof -
  have "\<exists>evs. h' = h @ evs
         \<and> 1 \<le> attempts_made evs \<and> attempts_made evs \<le> retries
         \<and> filter is_sleep evs = map (\<lambda>k. Sleep (d * 2 ^ k)) [0 ..< attempts_made evs - 1]
         \<and> (\<forall>err. res = Inl err \<longrightarrow>
               attempts_made evs = retries
               \<and> (\<exists>h0 h1. airdrop_attempt r conn pk l h0 = (Inl err, h1)
                     \<and> h' = h1 @ [AirdropAttemptFailed retries conn (message err)]))"
    if "1 \<le> retries" and "requestAirdropWithRetry r conn pk l retries d 1 h = (res, h')"
  proof -
    from retry_run [OF that(2) _ that(1)] obtain evs where
      "h' = h @ evs" "1 \<le> attempts_made evs" "attempts_made evs \<le> retries + 1 - 1"
      "filter is_sleep evs
          = map (\<lambda>k. Sleep (d * 2 ^ k)) [1 - 1 ..< 1 - 1 + (attempts_made evs - 1)]"
      "\<forall>err. res = Inl err \<longrightarrow>
            attempts_made evs = retries + 1 - 1
            \<and> (\<exists>h0 h1. airdrop_attempt r conn pk l h0 = (Inl err, h1)
                  \<and> h' = h1 @ [AirdropAttemptFailed retries conn (message err)])"
      by auto
    then show ?thesis by (intro exI [of _ evs]) simp
  qed
  with fetch_with_retry_unrolled [of call ev cur h] show ?thesis by blast
qed

theorem retry_budget_backoff_and_last_error_witness:
  "(1::nat) \<le> 3
   \<and> requestAirdropWithRetry (sample_remote ''A'' 1) Primary ''B'' 2000000000 3 2000 1 []
       = (Inl (Error ''rate limit''),
          [RpcRequestAirdrop Primary ''B'' 2000000000, AirdropAttemptFailed 1 Primary ''rate limit'',
           Sleep 2000,
           RpcRequestAirdrop Primary ''B'' 2000000000, AirdropAttemptFailed 2 Primary ''rate limit'',
           Sleep 4000,
           RpcRequestAirdrop Primary ''B'' 2000000000, AirdropAttemptFailed 3 Primary ''rate limit''])
   \<and> (\<exists>evs. attempts_made evs = 3 \<and> filter is_sleep evs = [Sleep 2000, Sleep 4000])
   \<and> fetch_with_retry (\<lambda>h. getBalance (sample_remote ''A'' 1) h Primary ''A'')
        (RpcGetBalance Primary ''A'') 0 0 []
       = (Inl (Error ''fetch failed''),
          [RpcGetBalance Primary ''A'', Sleep 2000, RpcGetBalance Primary ''A'', Sleep 2000,
           RpcGetBalance Primary ''A''])"
proof -
  let ?hist = "[RpcRequestAirdrop Primary ''B'' 2000000000,
           AirdropAttemptFailed 1 Primary ''rate limit'', Sleep 2000,
           RpcRequestAirdrop Primary ''B'' 2000000000,
           AirdropAttemptFailed 2 Primary ''rate limit'', Sleep 4000,
           RpcRequestAirdrop Primary ''B'' 2000000000,
           AirdropAttemptFailed 3 Primary ''rate limit'']"
  have run: "requestAirdropWithRetry (sample_remote ''A'' 1) Primary ''B'' 2000000000 3 2000 1 []
      = (Inl (Error ''rate limit''), ?hist)"
    using sample_airdrop_primary [of "''A''" 1 "''B''" "[]"] by simp
  note inst = retry_budget_backoff_and_last_error
    [of 3 "sample_remote ''A'' 1" Primary "''B''" 2000000000 2000 "[]" "Inl (Error ''rate limit'')"
      ?hist "\<lambda>h. getBalance (sample_remote ''A'' 1) h Primary ''A''"
      "RpcGetBalance Primary ''A''" 0]
  from inst run obtain evs where evs: "attempts_made evs = 3"
    "filter is_sleep evs = map (\<lambda>k. Sleep (2000 * 2 ^ k)) [0 ..< attempts_made evs - 1]"
    by auto
  have "[0 ..< (3::nat) - 1] = [0, 1]" by (simp add: upt_rec)
  with evs have "filter is_sleep evs = [Sleep 2000, Sleep 4000]" by simp
  with evs(1) have e: "\<exists>evs. attempts_made evs = 3 \<and> filter is_sleep evs = [Sleep 2000, Sleep 4000]"
    by blast
  have f: "fetch_with_retry (\<lambda>h. getBalance (sample_remote ''A'' 1) h Primary ''A'')
        (RpcGetBalance Primary ''A'') 0 0 []
       = (Inl (Error ''fetch failed''),
          [RpcGetBalance Primary ''A'', Sleep 2000, RpcGetBalance Primary ''A'', Sleep 2000,
           RpcGetBalance Primary ''A''])"
    using inst by (simp add: sample_remote_def)
  from run e f show ?thesis by simp
qed

section \<open>The poll, one owner\<close>

lemma fetch_with_retry_events:
  "\<exists>evs. snd (fetch_with_retry call ev cur 0 h) = h @ ev # evs \<and> set evs \<subseteq> {ev, Sleep 2000}"
  by (auto simp: fetch_with_retry_unrolled split: sum.splits)

lemma fetch_with_retry_always_fails:
  assumes "\<forall>h. isl (call h)"
  shows "isl (fst (fetch_with_retry call ev cur 0 h))"
proof -
  have "\<exists>e. call h' = Inl e" for h'
    using assms by (metis isl_def)
  then have "\<And>h' v. call h' \<noteq> Inr v" by (metis sum.distinct(1))
  then show ?thesis
    by (auto simp: fetch_with_retry_unrolled split: sum.splits)
qed

lemma fetch_with_retry_succeeds:
  assumes "\<forall>h. call h = Inr v"
  shows "fetch_with_retry call ev cur 0 h = (Inr v, h @ [ev])"
  using assms by (simp add: fetch_with_retry_unrolled)

lemma poll_body_cases:
  fixes ns :: "'n \<Rightarrow> string"
  defines "bal r pk \<equiv> (\<lambda>h'. getBalance r h' Primary pk)"
    and "sgs r pk \<equiv> (\<lambda>h'. getSignaturesForAddress r h' Primary pk 5)"
  obtains
    (balance_failed) err h1 where
      "fetch_with_retry (bal r (publicKey wd)) (RpcGetBalance Primary (publicKey wd))
         (lastBalance st) 0 h = (Inl err, h1)"
      "poll_body ns r uid wd st h = (Inl err, h1)"
  | (positions_failed) b h1 err where
      "fetch_with_retry (bal r (publicKey wd)) (RpcGetBalance Primary (publicKey wd))
         (lastBalance st) 0 h = (Inr b, h1)"
      "DlmmService_getPositions r h1 (publicKey wd) = Inl err"
      "poll_body ns r uid wd st h = (Inl err, h1 @ [DlmmGetPositions (publicKey wd)])"
  | (signatures_failed) b h1 ps err h2 where
      "fetch_with_retry (bal r (publicKey wd)) (RpcGetBalance Primary (publicKey wd))
         (lastBalance st) 0 h = (Inr b, h1)"
      "DlmmService_getPositions r h1 (publicKey wd) = Inr ps"
      "fetch_with_retry (sgs r (publicKey wd)) (RpcGetSignatures Primary (publicKey wd) 5)
         (lastSignatures st) 0 (h1 @ [DlmmGetPositions (publicKey wd)]) = (Inl err, h2)"
      "poll_body ns r uid wd st h = (Inl err, h2)"
  | (fetched) b h1 ps sg h2 where
      "fetch_with_retry (bal r (publicKey wd)) (RpcGetBalance Primary (publicKey wd))
         (lastBalance st) 0 h = (Inr b, h1)"
      "DlmmService_getPositions r h1 (publicKey wd) = Inr ps"
      "fetch_with_retry (sgs r (publicKey wd)) (RpcGetSignatures Primary (publicKey wd) 5)
         (lastSignatures st) 0 (h1 @ [DlmmGetPositions (publicKey wd)]) = (Inr sg, h2)"
      "poll_body ns r uid wd st h =
         (if alert_text ns st b ps sg \<noteq> '''' then
            (case sendMessage r h2 uid (alert_text ns st b ps sg) of
               Some err \<Rightarrow> (Inl err, h2 @ [SendMessage uid (alert_text ns st b ps sg)])
             | None \<Rightarrow>
                 (Inr (st\<lparr>lastBalance := b, lastPositions := ps, lastSignatures := sg\<rparr>),
                  h2 @ [SendMessage uid (alert_text ns st b ps sg)]))
          else (Inr (st\<lparr>lastBalance := b, lastPositions := ps, lastSignatures := sg\<rparr>), h2))"
proof -
  let ?pk = "publicKey wd"
  obtain a h1 where f1: "fetch_with_retry (bal r ?pk) (RpcGetBalance Primary ?pk)
         (lastBalance st) 0 h = (a, h1)"
    by (cases "fetch_with_retry (bal r ?pk) (RpcGetBalance Primary ?pk) (lastBalance st) 0 h")
  show thesis
  proof (cases a)
    case (Inl err)
    with f1 show thesis
      by (intro balance_failed [of err h1]) (simp_all add: poll_body_def bal_def)
  next
    case (Inr b)
    note b = Inr
    show thesis
    proof (cases "DlmmService_getPositions r h1 ?pk")
      case (Inl err)
      with f1 b show thesis
        by (intro positions_failed [of b h1 err]) (simp_all add: poll_body_def bal_def)
    next
      case (Inr ps)
      note ps = Inr
      obtain c h2 where f2: "fetch_with_retry (sgs r ?pk) (RpcGetSignatures Primary ?pk 5)
         (lastSignatures st) 0 (h1 @ [DlmmGetPositions ?pk]) = (c, h2)"
        by (cases "fetch_with_retry (sgs r ?pk) (RpcGetSignatures Primary ?pk 5)
         (lastSignatures st) 0 (h1 @ [DlmmGetPositions ?pk])")
      show thesis
      proof (cases c)
        case (Inl err)
        with f1 b ps f2 show thesis
          by (intro signatures_failed [of b h1 ps err h2])
            (simp_all add: poll_body_def bal_def sgs_def)
      next
        case (Inr sg)
        with f1 b ps f2 show thesis
          by (intro fetched [of b h1 ps sg h2])
            (simp_all add: poll_body_def bal_def sgs_def Let_def)
      qed
    qed
  qed
qed

lemma poll_body_fetch_fails:
  assumes "fetch_fails r (publicKey wd)"
  shows "isl (fst (poll_body ns r uid wd st h))"
proof (cases rule: poll_body_cases [of r wd st h ns uid])
  case (balance_failed err h1)
  then show ?thesis by simp
next
  case (positions_failed b h1 err)
  then show ?thesis by simp
next
  case (signatures_failed b h1 ps err h2)
  then show ?thesis by simp
next
  case (fetched b h1 ps sg h2)
  from assms consider
    (bal) "\<forall>h. isl (getBalance r h Primary (publicKey wd))"
    | (pos) "\<forall>h. isl (getUserPositions r h (publicKey wd))"
    | (sgs) "\<forall>h. isl (getSignaturesForAddress r h Primary (publicKey wd) 5)"
    by (auto simp: fetch_fails_def)
  then have False
  proof cases
    case bal
    from fetch_with_retry_always_fails [OF bal] fetched(1) show False
      by (metis fst_conv sum.disc(2))
  next
    case pos
    then have "isl (getUserPositions r h1 (publicKey wd))" by simp
    then have "isl (DlmmService_getPositions r h1 (publicKey wd))"
      by (cases "getUserPositions r h1 (publicKey wd)")
        (simp_all add: DlmmService_getPositions_def)
    with fetched(2) show False by simp
  next
    case sgs
    from fetch_with_retry_always_fails [OF sgs] fetched(3) show False
      by (metis fst_conv sum.disc(2))
  qed
  then show ?thesis ..
qed


lemma poll_body_history:
  "\<exists>evs. snd (poll_body ns r uid wd st h) = h @ RpcGetBalance Primary (publicKey wd) # evs
     \<and> (\<forall>ev\<in>set evs. endpoint_of ev \<noteq> Some Fallback)"
proof -
  let ?pk = "publicKey wd"
  have f: "\<exists>evs. h1 = h0 @ ev # evs \<and> (\<forall>e\<in>set evs. endpoint_of e \<noteq> Some Fallback)"
    if "fetch_with_retry call ev cur 0 h0 = (a, h1)" "endpoint_of ev \<noteq> Some Fallback"
    for call ev a h1 h0 and cur :: 'x
  proof -
    from fetch_with_retry_events [of call ev cur h0] obtain evs where
      evs: "snd (fetch_with_retry call ev cur 0 h0) = h0 @ ev # evs"
        "set evs \<subseteq> {ev, Sleep 2000}" by blast
    from evs(1) that(1) have "h1 = h0 @ ev # evs" by simp
    moreover from evs(2) that(2) have "\<forall>e\<in>set evs. endpoint_of e \<noteq> Some Fallback"
      by (auto dest!: subsetD)
    ultimately show ?thesis by blast
  qed
  show ?thesis
  proof (cases rule: poll_body_cases [of r wd st h ns uid])
    case (balance_failed err h1)
    from f [OF balance_failed(1)] balance_failed(2) show ?thesis by auto
  next
    case (positions_failed b h1 err)
    from f [OF positions_failed(1)] positions_failed(3) show ?thesis by auto
  next
    case (signatures_failed b h1 ps err h2)
    from f [OF signatures_failed(1)] obtain evs1 where
      e1: "h1 = h @ RpcGetBalance Primary ?pk # evs1"
        "\<forall>e\<in>set evs1. endpoint_of e \<noteq> Some Fallback" by auto
    from f [OF signatures_failed(3)] obtain evs2 where
      e2: "h2 = (h1 @ [DlmmGetPositions ?pk]) @ RpcGetSignatures Primary ?pk 5 # evs2"
        "\<forall>e\<in>set evs2. endpoint_of e \<noteq> Some Fallback" by auto
    let ?evs = "evs1 @ DlmmGetPositions ?pk # RpcGetSignatures Primary ?pk 5 # evs2"
    have "snd (poll_body ns r uid wd st h) = h @ RpcGetBalance Primary ?pk # ?evs"
      using signatures_failed(4) e1(1) e2(1) by simp
    moreover have "\<forall>ev\<in>set ?evs. endpoint_of ev \<noteq> Some Fallback"
      using e1(2) e2(2) by auto
    ultimately show ?thesis by blast
  next
    case (fetched b h1 ps sg h2)
    from f [OF fetched(1)] obtain evs1 where
      e1: "h1 = h @ RpcGetBalance Primary ?pk # evs1"
        "\<forall>e\<in>set evs1. endpoint_of e \<noteq> Some Fallback" by auto
    from f [OF fetched(3)] obtain evs2 where
      e2: "h2 = (h1 @ [DlmmGetPositions ?pk]) @ RpcGetSignatures Primary ?pk 5 # evs2"
        "\<forall>e\<in>set evs2. endpoint_of e \<noteq> Some Fallback" by auto
    let ?evs = "evs1 @ DlmmGetPositions ?pk # RpcGetSignatures Primary ?pk 5 # evs2"
    have h2: "h2 = h @ RpcGetBalance Primary ?pk # ?evs" using e1(1) e2(1) by simp
    have ok: "\<forall>ev\<in>set ?evs. endpoint_of ev \<noteq> Some Fallback"
      using e1(2) e2(2) by auto
    let ?m = "SendMessage uid (alert_text ns st b ps sg)"
    have "snd (poll_body ns r uid wd st h) = h2 \<or> snd (poll_body ns r uid wd st h) = h2 @ [?m]"
      using fetched(4) by (auto split: option.splits)
    then show ?thesis
    proof
      assume "snd (poll_body ns r uid wd st h) = h2"
      with h2 ok show ?thesis by blast
    next
      assume "snd (poll_body ns r uid wd st h) = h2 @ [?m]"
      then have "snd (poll_body ns r uid wd st h) = h @ RpcGetBalance Primary ?pk # (?evs @ [?m])"
        using h2 by simp
      moreover have "\<forall>ev\<in>set (?evs @ [?m]). endpoint_of ev \<noteq> Some Fallback"
        using ok by auto
      ultimately show ?thesis by blast
    qed
  qed
qed

lemma poll_owner_frame:
  "B \<noteq> fst entry \<Longrightarrow> states (poll_owner ns r w entry) B = states w B"
  by (simp add: poll_owner_def Let_def split: prod.splits sum.splits)

lemma poll_owner_wallets: "wallets (poll_owner ns r w entry) = wallets w"
  by (simp add: poll_owner_def Let_def split: prod.splits sum.splits)

lemma poll_owner_failed:
  assumes "poll_body ns r A wA (state_or_default w A) (history w) = (Inl err, h)"
  shows "poll_owner ns r w (A, wA)
      = w\<lparr>states := (states w)(A \<mapsto> state_or_default w A), history := h @ [PollingError A err]\<rparr>"
  using assms by (simp add: poll_owner_def Let_def)

lemma poll_owner_updated:
  assumes "poll_body ns r A wA (state_or_default w A) (history w) = (Inr st', h)"
  shows "poll_owner ns r w (A, wA) = w\<lparr>states := (states w)(A \<mapsto> st'), history := h\<rparr>"
  using assms by (simp add: poll_owner_def Let_def)

lemma poll_owner_history:
  "\<exists>evs. history (poll_owner ns r w entry)
       = history w @ RpcGetBalance Primary (publicKey (snd entry)) # evs
     \<and> (\<forall>ev\<in>set evs. endpoint_of ev \<noteq> Some Fallback)"
proof -
  obtain A wA where entry: "entry = (A, wA)" by (cases entry)
  obtain a h where pb: "poll_body ns r A wA (state_or_default w A) (history w) = (a, h)"
    by (cases "poll_body ns r A wA (state_or_default w A) (history w)")
  obtain evs where evs: "h = history w @ RpcGetBalance Primary (publicKey wA) # evs"
    "\<forall>ev\<in>set evs. endpoint_of ev \<noteq> Some Fallback"
    using poll_body_history [of ns r A wA "state_or_default w A" "history w"] pb by auto
  show ?thesis
  proof (cases a)
    case (Inl err)
    with pb have "history (poll_owner ns r w entry) = h @ [PollingError A err]"
      by (simp add: entry poll_owner_failed)
    then have "history (poll_owner ns r w entry)
        = history w @ RpcGetBalance Primary (publicKey (snd entry)) # (evs @ [PollingError A err])"
      using evs(1) entry by simp
    moreover have "\<forall>ev\<in>set (evs @ [PollingError A err]). endpoint_of ev \<noteq> Some Fallback"
      using evs(2) by auto
    ultimately show ?thesis by blast
  next
    case (Inr st')
    with pb have "history (poll_owner ns r w entry) = h"
      by (simp add: entry poll_owner_updated)
    with evs entry show ?thesis by auto
  qed
qed

section \<open>The poll, all owners\<close>

lemma poll_entries_Nil: "poll_entries ns r [] w = w"
  by (simp add: poll_entries_def)

lemma poll_entries_Cons:
  "poll_entries ns r (e # es) w = poll_entries ns r es (poll_owner ns r w e)"
  by (simp add: poll_entries_def)




lemma poll_entries_history:
  "\<exists>evs. history (poll_entries ns r entries w) = history w @ evs
     \<and> (\<forall>ev\<in>set evs. endpoint_of ev \<noteq> Some Fallback)
     \<and> (\<forall>entry\<in>set entries. RpcGetBalance Primary (publicKey (snd entry)) \<in> set evs)"
proof (induction entries arbitrary: w)
  case Nil
  then show ?case by (simp add: poll_entries_Nil)
next
  case (Cons e es)
  obtain evs1 where 1: "history (poll_owner ns r w e)
       = history w @ RpcGetBalance Primary (publicKey (snd e)) # evs1"
     "\<forall>ev\<in>set evs1. endpoint_of ev \<noteq> Some Fallback"
    using poll_owner_history by blast
  obtain evs2 where 2: "history (poll_entries ns r es (poll_owner ns r w e))
       = history (poll_owner ns r w e) @ evs2"
     "\<forall>ev\<in>set evs2. endpoint_of ev \<noteq> Some Fallback"
     "\<forall>entry\<in>set es. RpcGetBalance Primary (publicKey (snd entry)) \<in> set evs2"
    using Cons.IH by blast
  let ?evs = "RpcGetBalance Primary (publicKey (snd e)) # evs1 @ evs2"
  have "history (poll_entries ns r (e # es) w) = history w @ ?evs"
    using 1(1) 2(1) by (simp add: poll_entries_Cons)
  moreover have "\<forall>ev\<in>set ?evs. endpoint_of ev \<noteq> Some Fallback"
    using 1(2) 2(2) by auto
  moreover have "\<forall>entry\<in>set (e # es). RpcGetBalance Primary (publicKey (snd entry)) \<in> set ?evs"
    using 2(3) by auto
  ultimately show ?case by blast
qed



lemma poll_owner_own_fetch_fails:
  assumes "fetch_fails r (publicKey wA)"
  shows "states (poll_owner ns r w (A, wA)) A = Some (state_or_default w A)"
proof -
  from poll_body_fetch_fails [OF assms, of ns A "state_or_default w A" "history w"]
  obtain err h where "poll_body ns r A wA (state_or_default w A) (history w) = (Inl err, h)"
    by (cases "poll_body ns r A wA (state_or_default w A) (history w)") (auto simp: isl_def)
  then show ?thesis by (simp add: poll_owner_failed)
qed


section \<open>C4: a failing owner is skipped, the others are processed\<close>





section \<open>The faucet handler\<close>

lemma rate_limit_test: "((of_int x :: rat) / 1000 < 60 * 60) \<longleftrightarrow> x < 3600000"
proof -
  have "((of_int x :: rat) / 1000 < 60 * 60) \<longleftrightarrow> (of_int x :: rat) < of_int 3600000"
    by (simp add: field_simps)
  also have "\<dots> \<longleftrightarrow> x < 3600000" by (simp only: of_int_less_iff)
  finally show ?thesis .
qed

lemma remaining_minutes:
  fixes x :: int
  defines "m \<equiv> \<lceil>(60 * 60 - (of_int x :: rat) / 1000) / 60\<rceil>"
  shows "(m - 1) * 60000 < 3600000 - x" and "3600000 - x \<le> m * 60000"
proof -
  let ?y = "(60 * 60 - (of_int x :: rat) / 1000) / 60"
  have y: "?y = of_int (3600000 - x) / 60000" by (simp add: field_simps)
  have "of_int m - 1 < ?y" unfolding m_def by linarith
  then have "(of_int m - 1) * 60000 < (of_int (3600000 - x) :: rat)"
    unfolding y by (simp add: field_simps)
  then have "(of_int ((m - 1) * 60000) :: rat) < of_int (3600000 - x)" by simp
  then show "(m - 1) * 60000 < 3600000 - x" by (simp only: of_int_less_iff)
  have "?y \<le> of_int m" unfolding m_def by linarith
  then have "(of_int (3600000 - x) :: rat) \<le> of_int m * 60000"
    unfolding y by (simp add: field_simps)
  then have "(of_int (3600000 - x) :: rat) \<le> of_int (m * 60000)" by simp
  then show "3600000 - x \<le> m * 60000" by (simp only: of_int_le_iff)
qed

lemma request_tokens_no_wallet:
  "wallet sess = None \<Longrightarrow> request_tokens r uid now sess w = (WalletMissing, w)"
  by (simp add: request_tokens_def)

lemma request_tokens_limited:
  assumes "wallet sess = Some wd" and "now - faucet_time w uid < 3600000"
  shows "request_tokens r uid now sess w
     = (RateLimited \<lceil>(60 * 60 - (of_int (now - faucet_time w uid) :: rat) / 1000) / 60\<rceil>,
        w\<lparr>states := (states w)(uid \<mapsto> faucet_state_or_default w uid)\<rparr>)"
  using assms rate_limit_test [of "now - faucet_time w uid"]
  by (simp add: request_tokens_def faucet_time_def Let_def)

lemma request_tokens_not_limited:
  assumes "wallet sess = Some wd" and "3600000 \<le> now - faucet_time w uid"
  shows "request_tokens r uid now sess w
     = (case requestAirdropWithRetry r Primary (publicKey wd) 2000000000 3 2000 1 (history w) of
          (Inr signature, h) \<Rightarrow>
            (AirdropSuccess signature,
             w\<lparr>states := (states w)(uid \<mapsto> (faucet_state_or_default w uid)
                                              \<lparr>lastFaucetTime := Some now\<rparr>),
               history := h\<rparr>)
        | (Inl primaryError, h) \<Rightarrow>
            (case requestAirdropWithRetry r Fallback (publicKey wd) 2000000000 3 2000 1
                    (h @ [PrimaryRpcFailed]) of
               (Inr signature, h') \<Rightarrow>
                 (AirdropSuccess signature,
                  w\<lparr>states := (states w)(uid \<mapsto> (faucet_state_or_default w uid)
                                                   \<lparr>lastFaucetTime := Some now\<rparr>),
                    history := h'\<rparr>)
             | (Inl err, h') \<Rightarrow>
                 (AirdropUnavailable err,
                  w\<lparr>states := (states w)(uid \<mapsto> faucet_state_or_default w uid),
                    history := h' @ [RequestTokensError uid err]\<rparr>)))"
  using assms rate_limit_test [of "now - faucet_time w uid"]
  by (simp add: request_tokens_def faucet_time_def Let_def split: prod.splits sum.splits)

lemma store_same_state:
  "states w uid = Some s \<Longrightarrow> w\<lparr>states := (states w)(uid \<mapsto> faucet_state_or_default w uid)\<rparr> = w"
  by (simp add: faucet_state_or_default_def fun_upd_idem)

lemma faucet_time_after_init:
  "faucet_time (w\<lparr>states := (states w)(uid \<mapsto> faucet_state_or_default w uid), history := h\<rparr>) uid
     = faucet_time w uid"
  by (simp add: faucet_time_def faucet_state_or_default_def)

lemma faucet_time_after_init':
  "faucet_time (w\<lparr>states := (states w)(uid \<mapsto> faucet_state_or_default w uid)\<rparr>) uid
     = faucet_time w uid"
  by (simp add: faucet_time_def faucet_state_or_default_def)

lemma faucet_time_after_success:
  "faucet_time (w\<lparr>states := (states w)(uid \<mapsto> s\<lparr>lastFaucetTime := Some now\<rparr>), history := h\<rparr>) uid
     = now"
  by (simp add: faucet_time_def faucet_state_or_default_def lastFaucetTime_or_0_def)

lemma request_tokens_frame:
  "B \<noteq> A \<Longrightarrow> states (snd (request_tokens r A now sess w)) B = states w B"
  by (simp add: request_tokens_def Let_def split: option.splits prod.splits sum.splits)

lemma request_tokens_wallets:
  "wallets (snd (request_tokens r A now sess w)) = wallets w"
  by (simp add: request_tokens_def Let_def split: option.splits prod.splits sum.splits)

lemma faucet_time_None: "states w uid = None \<Longrightarrow> faucet_time w uid = 0"
  by (simp add: faucet_time_def faucet_state_or_default_def faucet_default_state_def
      lastFaucetTime_or_0_def)

section \<open>C7: the rate limit of the faucet\<close>

text \<open>
  Claim C7. A faucet request made less than 3600 seconds after the owner's last faucet
  time is answered with the rate-limit reply, which carries the remaining minutes rounded
  up, and leaves the stored state of an owner who has one as it is. A request whose
  airdrop fails on both endpoints is answered with the error of the fallback run and
  leaves the last faucet time as it is. A successful request sets the last faucet time to
  now, and a second request within 3600 seconds of it is rate-limited and changes
  nothing.
\<close>

theorem faucet_rate_limit:
  assumes ws: "wallet sess = Some wd"
  shows "(now - faucet_time w uid < 3600000 \<longrightarrow>
           (\<exists>m. fst (request_tokens r uid now sess w) = RateLimited m
              \<and> (m - 1) * 60000 < 3600000 - (now - faucet_time w uid)
              \<and> 3600000 - (now - faucet_time w uid) \<le> m * 60000)
           \<and> faucet_time (snd (request_tokens r uid now sess w)) uid = faucet_time w uid
           \<and> history (snd (request_tokens r uid now sess w)) = history w
           \<and> (states w uid \<noteq> None \<longrightarrow> snd (request_tokens r uid now sess w) = w))
     \<and> (3600000 \<le> now - faucet_time w uid \<longrightarrow>
           (\<forall>m. fst (request_tokens r uid now sess w) \<noteq> RateLimited m))
     \<and> (states w uid = None \<and> 3600000 \<le> now \<longrightarrow>
           (\<forall>m. fst (request_tokens r uid now sess w) \<noteq> RateLimited m))
     \<and> (\<forall>err. fst (request_tokens r uid now sess w) = AirdropUnavailable err \<longrightarrow>
           faucet_time (snd (request_tokens r uid now sess w)) uid = faucet_time w uid
           \<and> (states w uid \<noteq> None \<longrightarrow> states (snd (request_tokens r uid now sess w)) = states w)
           \<and> (\<exists>e1 h1 h2. primary_run r wd (history w) = (Inl e1, h1)
                 \<and> fallback_run r wd h1 = (Inl err, h2)))
     \<and> (\<forall>sig. fst (request_tokens r uid now sess w) = AirdropSuccess sig \<longrightarrow>
           3600000 \<le> now - faucet_time w uid
           \<and> states (snd (request_tokens r uid now sess w)) uid
               = Some ((faucet_state_or_default w uid)\<lparr>lastFaucetTime := Some now\<rparr>)
           \<and> faucet_time (snd (request_tokens r uid now sess w)) uid = now)
     \<and> (\<forall>sig w1 now2 r2.
           request_tokens r uid now sess w = (AirdropSuccess sig, w1) \<and> now2 - now < 3600000 \<longrightarrow>
           (\<exists>m. request_tokens r2 uid now2 sess w1 = (RateLimited m, w1))
           \<and> (\<exists>s. states w1 uid = Some s \<and> lastFaucetTime s = Some now))"
proof -
  let ?res = "request_tokens r uid now sess w"
  let ?init = "w\<lparr>states := (states w)(uid \<mapsto> faucet_state_or_default w uid)\<rparr>"
  let ?x = "now - faucet_time w uid"
  have limited: "?res = (RateLimited \<lceil>(60 * 60 - (of_int ?x :: rat) / 1000) / 60\<rceil>, ?init)"
    if "?x < 3600000"
    using request_tokens_limited [OF ws that] .
  note open_ = request_tokens_not_limited [OF ws, of now w uid r]
  have A: "(\<exists>m. fst ?res = RateLimited m
              \<and> (m - 1) * 60000 < 3600000 - ?x \<and> 3600000 - ?x \<le> m * 60000)
           \<and> faucet_time (snd ?res) uid = faucet_time w uid
           \<and> history (snd ?res) = history w
           \<and> (states w uid \<noteq> None \<longrightarrow> snd ?res = w)"
    if lt: "?x < 3600000"
  proof -
    have "\<exists>m. fst ?res = RateLimited m
              \<and> (m - 1) * 60000 < 3600000 - ?x \<and> 3600000 - ?x \<le> m * 60000"
      using limited [OF lt] remaining_minutes [of ?x] by simp
    moreover have "faucet_time (snd ?res) uid = faucet_time w uid"
      using limited [OF lt] by (simp add: faucet_time_after_init')
    moreover have "history (snd ?res) = history w"
      using limited [OF lt] by simp
    moreover have "states w uid \<noteq> None \<longrightarrow> snd ?res = w"
      using limited [OF lt] store_same_state [of w uid] by auto
    ultimately show ?thesis by blast
  qed
  have B: "\<forall>m. fst ?res \<noteq> RateLimited m" if ge: "3600000 \<le> ?x"
    using open_ [OF ge] by (auto split: prod.splits sum.splits)
  have C: "\<forall>m. fst ?res \<noteq> RateLimited m" if "states w uid = None" "3600000 \<le> now"
    using B that faucet_time_None [of w uid] by simp
  have notlim: "3600000 \<le> ?x" if "fst ?res \<noteq> RateLimited \<lceil>(60 * 60 - (of_int ?x :: rat) / 1000) / 60\<rceil>"
  proof (rule ccontr)
    assume "\<not> 3600000 \<le> ?x"
    then have "?x < 3600000" by simp
    from limited [OF this] that show False by simp
  qed
  have D: "faucet_time (snd ?res) uid = faucet_time w uid
           \<and> (states w uid \<noteq> None \<longrightarrow> states (snd ?res) = states w)
           \<and> (\<exists>e1 h1 h2. primary_run r wd (history w) = (Inl e1, h1)
                 \<and> fallback_run r wd h1 = (Inl err, h2))"
    if f: "fst ?res = AirdropUnavailable err" for err
  proof -
    have ge: "3600000 \<le> ?x" using f by (intro notlim) simp
    obtain a h1 where p: "primary_run r wd (history w) = (a, h1)"
      by (cases "primary_run r wd (history w)")
    show ?thesis
    proof (cases a)
      case (Inr sig)
      with open_ [OF ge] p f show ?thesis by simp
    next
      case (Inl e1)
      note e1 = Inl
      obtain c h2 where q: "fallback_run r wd h1 = (c, h2)"
        by (cases "fallback_run r wd h1")
      show ?thesis
      proof (cases c)
        case (Inr sig)
        with open_ [OF ge] p e1 q f show ?thesis by simp
      next
        case (Inl err')
        with open_ [OF ge] p e1 q f have err: "err' = err"
          and res: "snd ?res = w\<lparr>states := (states w)(uid \<mapsto> faucet_state_or_default w uid),
                    history := h2 @ [RequestTokensError uid err]\<rparr>"
          by simp_all
        have "faucet_time (snd ?res) uid = faucet_time w uid"
          unfolding res by (rule faucet_time_after_init)
        moreover have "states w uid \<noteq> None \<longrightarrow> states (snd ?res) = states w"
          unfolding res by (auto simp: faucet_state_or_default_def fun_upd_idem)
        moreover have "\<exists>e1 h1 h2. primary_run r wd (history w) = (Inl e1, h1)
                 \<and> fallback_run r wd h1 = (Inl err, h2)"
          using p e1 q Inl err by blast
        ultimately show ?thesis by blast
      qed
    qed
  qed
  have E: "3600000 \<le> ?x
           \<and> states (snd ?res) uid
               = Some ((faucet_state_or_default w uid)\<lparr>lastFaucetTime := Some now\<rparr>)
           \<and> faucet_time (snd ?res) uid = now"
    if f: "fst ?res = AirdropSuccess sig" for sig
  proof -
    have ge: "3600000 \<le> ?x" using f by (intro notlim) simp
    let ?ok = "\<lambda>h. w\<lparr>states := (states w)(uid \<mapsto> (faucet_state_or_default w uid)
                                              \<lparr>lastFaucetTime := Some now\<rparr>),
               history := h\<rparr>"
    have "\<exists>h. snd ?res = ?ok h"
      using open_ [OF ge] f by (auto split: prod.splits sum.splits)
    then obtain h where res: "snd ?res = ?ok h" ..
    have "states (snd ?res) uid
        = Some ((faucet_state_or_default w uid)\<lparr>lastFaucetTime := Some now\<rparr>)"
      unfolding res by simp
    moreover have "faucet_time (snd ?res) uid = now"
      unfolding res by (rule faucet_time_after_success)
    ultimately show ?thesis using ge by blast
  qed
  have F: "(\<exists>m. request_tokens r2 uid now2 sess w1 = (RateLimited m, w1))
           \<and> (\<exists>s. states w1 uid = Some s \<and> lastFaucetTime s = Some now)"
    if first: "?res = (AirdropSuccess sig, w1)" and near: "now2 - now < 3600000"
    for sig w1 now2 r2
  proof -
    have f: "fst ?res = AirdropSuccess sig" and w1: "snd ?res = w1" using first by simp_all
    from E [OF f] w1 have st: "states w1 uid
        = Some ((faucet_state_or_default w uid)\<lparr>lastFaucetTime := Some now\<rparr>)"
      and ft: "faucet_time w1 uid = now" by simp_all
    from near ft have "now2 - faucet_time w1 uid < 3600000" by simp
    from request_tokens_limited [OF ws this, of r2] store_same_state [OF st]
    have "\<exists>m. request_tokens r2 uid now2 sess w1 = (RateLimited m, w1)" by simp
    moreover from st have "\<exists>s. states w1 uid = Some s \<and> lastFaucetTime s = Some now" by simp
    ultimately show ?thesis by blast
  qed
  from A B C D E F show ?thesis by blast
qed

lemma dead_airdrop:
  "requestAirdropWithRetry dead_remote conn pk 2000000000 3 2000 1 h =
     (Inl (Error ''rate limit''),
      h @ [RpcRequestAirdrop conn pk 2000000000, AirdropAttemptFailed 1 conn ''rate limit'',
           Sleep 2000,
           RpcRequestAirdrop conn pk 2000000000, AirdropAttemptFailed 2 conn ''rate limit'',
           Sleep 4000,
           RpcRequestAirdrop conn pk 2000000000, AirdropAttemptFailed 3 conn ''rate limit''])"
proof -
  have a: "airdrop_attempt dead_remote conn pk 2000000000 h'
      = (Inl (Error ''rate limit''), h' @ [RpcRequestAirdrop conn pk 2000000000])" for h'
    by (simp add: airdrop_attempt_def dead_remote_def)
  let ?f = "requestAirdropWithRetry dead_remote conn pk 2000000000 3 2000"
  have s1: "?f 1 h' = ?f 2 (h' @ [RpcRequestAirdrop conn pk 2000000000,
      AirdropAttemptFailed 1 conn ''rate limit'', Sleep 2000])" for h'
    using retry_step_again [OF _ a, of 1 3 2000 h'] by (simp add: numeral_2_eq_2)
  have s2: "?f 2 h' = ?f 3 (h' @ [RpcRequestAirdrop conn pk 2000000000,
      AirdropAttemptFailed 2 conn ''rate limit'', Sleep 4000])" for h'
    using retry_step_again [OF _ a, of 2 3 2000 h'] by simp
  have s3: "?f 3 h' = (Inl (Error ''rate limit''), h' @ [RpcRequestAirdrop conn pk 2000000000,
      AirdropAttemptFailed 3 conn ''rate limit''])" for h'
    using retry_step_last [OF a, of 3 2000 h'] by simp
  show ?thesis by (simp only: s1 s2 s3 append_assoc append.simps)
qed

lemma faucet_time_empty_world: "faucet_time empty_world uid = 0"
  by (rule faucet_time_None) (simp add: empty_world_def)

lemma sample_request_tokens:
  "request_tokens (sample_remote bad b) 1 1700000000000 session_A empty_world
     = (AirdropSuccess ''airdropSig'',
        empty_world
          \<lparr>states := (states empty_world)
             (1 \<mapsto> (faucet_state_or_default empty_world 1)\<lparr>lastFaucetTime := Some 1700000000000\<rparr>),
           history :=
             [RpcRequestAirdrop Primary ''A'' 2000000000,
              AirdropAttemptFailed 1 Primary ''rate limit'', Sleep 2000,
              RpcRequestAirdrop Primary ''A'' 2000000000,
              AirdropAttemptFailed 2 Primary ''rate limit'', Sleep 4000,
              RpcRequestAirdrop Primary ''A'' 2000000000,
              AirdropAttemptFailed 3 Primary ''rate limit'', PrimaryRpcFailed,
              RpcRequestAirdrop Fallback ''A'' 2000000000,
              RpcConfirmTransaction Fallback ''airdropSig'']\<rparr>)"
proof -
  have ws: "wallet session_A = Some wallet_A" by (simp add: session_A_def)
  have ge: "3600000 \<le> 1700000000000 - faucet_time empty_world 1"
    by (simp add: faucet_time_empty_world)
  have pk: "publicKey wallet_A = ''A''" by (simp add: wallet_A_def)
  have h: "history empty_world = []" by (simp add: empty_world_def)
  show ?thesis
    unfolding request_tokens_not_limited [OF ws ge] pk h
      sample_airdrop_primary sample_airdrop_fallback
    by simp
qed

lemma dead_request_tokens:
  "fst (request_tokens dead_remote 1 1700000000000 session_A empty_world)
     = AirdropUnavailable (Error ''rate limit'')"
proof -
  have ws: "wallet session_A = Some wallet_A" by (simp add: session_A_def)
  have ge: "3600000 \<le> 1700000000000 - faucet_time empty_world 1"
    by (simp add: faucet_time_empty_world)
  show ?thesis
    unfolding request_tokens_not_limited [OF ws ge] dead_airdrop
    by simp
qed

theorem faucet_rate_limit_witness:
  "wallet session_A = Some wallet_A
   \<and> fst (request_tokens (sample_remote ''X'' 1) 1 1700000000000 session_A empty_world)
       = AirdropSuccess ''airdropSig''
   \<and> (1700000060000::int) - 1700000000000 < 3600000
   \<and> (\<exists>m. request_tokens dead_remote 1 1700000060000 session_A
             (snd (request_tokens (sample_remote ''X'' 1) 1 1700000000000 session_A empty_world))
           = (RateLimited m,
              snd (request_tokens (sample_remote ''X'' 1) 1 1700000000000 session_A empty_world)))
   \<and> faucet_time
        (snd (request_tokens (sample_remote ''X'' 1) 1 1700000000000 session_A empty_world)) 1
       = 1700000000000
   \<and> states empty_world 1 = None \<and> (3600000::int) \<le> 1700000000000
   \<and> fst (request_tokens dead_remote 1 1700000000000 session_A empty_world)
       = AirdropUnavailable (Error ''rate limit'')
   \<and> faucet_time (snd (request_tokens dead_remote 1 1700000000000 session_A empty_world)) 1
       = faucet_time empty_world 1"
proof -
  let ?r = "sample_remote ''X'' 1"
  let ?first = "request_tokens ?r 1 1700000000000 session_A empty_world"
  have ws: "wallet session_A = Some wallet_A" by (simp add: session_A_def)
  have f: "fst ?first = AirdropSuccess ''airdropSig''"
    using sample_request_tokens [of "''X''" 1] by simp
  have near: "(1700000060000::int) - 1700000000000 < 3600000" by simp
  have pair: "?first = (AirdropSuccess ''airdropSig'', snd ?first)"
    using f by (cases ?first) simp
  note inst = faucet_rate_limit [OF ws, of 1700000000000 empty_world 1 ?r]
  have two: "\<exists>m. request_tokens dead_remote 1 1700000060000 session_A (snd ?first)
      = (RateLimited m, snd ?first)"
    using inst pair near by blast
  have ft: "faucet_time (snd ?first) 1 = 1700000000000"
    using inst f by blast
  have none: "states empty_world 1 = None" by (simp add: empty_world_def)
  note inst2 = faucet_rate_limit [OF ws, of 1700000000000 empty_world 1 dead_remote]
  have keep: "faucet_time (snd (request_tokens dead_remote 1 1700000000000 session_A empty_world)) 1
      = faucet_time empty_world 1"
    using inst2 dead_request_tokens by blast
  from ws f near two ft none dead_request_tokens keep show ?thesis by simp
qed

section \<open>C6: failover\<close>

lemma poll_body_same_primary:
  assumes "same_primary_reads r r'"
  shows "poll_body ns r uid wd st h = poll_body ns r' uid wd st h"
proof -
  have 1: "(\<lambda>h'. getBalance r h' Primary pk) = (\<lambda>h'. getBalance r' h' Primary pk)" for pk
    using assms by (simp add: same_primary_reads_def)
  have 2: "(\<lambda>h'. getSignaturesForAddress r h' Primary pk 5)
      = (\<lambda>h'. getSignaturesForAddress r' h' Primary pk 5)" for pk
    using assms by (simp add: same_primary_reads_def)
  have 3: "DlmmService_getPositions r = DlmmService_getPositions r'"
    using assms by (simp add: same_primary_reads_def DlmmService_getPositions_def fun_eq_iff)
  have 4: "sendMessage r = sendMessage r'"
    using assms by (simp add: same_primary_reads_def)
  show ?thesis by (simp only: poll_body_def 1 2 3 4)
qed

lemma poll_entries_same_primary:
  assumes "same_primary_reads r r'"
  shows "poll_entries ns r entries w = poll_entries ns r' entries w"
proof -
  have "poll_owner ns r = poll_owner ns r'"
    by (simp add: fun_eq_iff poll_owner_def poll_body_same_primary [OF assms])
  then show ?thesis by (simp add: poll_entries_def)
qed

lemma retry_run_from_1:
  assumes "requestAirdropWithRetry r conn pk l 3 d 1 h = (res, h')"
  shows "\<exists>evs. h' = h @ evs \<and> attempts_made evs \<le> 3 \<and> (isl res \<longrightarrow> attempts_made evs = 3)
     \<and> (\<forall>ev\<in>set evs. endpoint_of ev = Some conn \<or> endpoint_of ev = None)"
proof -
  from retry_run [OF assms] obtain evs where
    "h' = h @ evs" "attempts_made evs \<le> 3 + 1 - 1"
    "\<forall>ev\<in>set evs. endpoint_of ev = Some conn \<or> endpoint_of ev = None"
    "\<forall>err. res = Inl err \<longrightarrow> attempts_made evs = 3 + 1 - 1"
    by auto
  then show ?thesis by (intro exI [of _ evs]) (auto simp: isl_def)
qed

text \<open>
  Claim C6. Only the airdrop fails over. When the three attempts on the primary
  endpoint have failed, the handler runs the whole retry on the fallback endpoint; if the
  first fallback attempt succeeds, its signature is the result and the history ends with
  that one attempt: nothing is sent to the primary after the switch. The reads of the
  poll go to the primary endpoint only, and what the fallback endpoint would answer has
  no influence on the poll.
\<close>

theorem failover_only_for_airdrop:
  "(wallet sess = Some wd \<and> 3600000 \<le> now - faucet_time w uid
      \<and> primary_run r wd (history w) = (Inl e1, h1) \<longrightarrow>
      (\<exists>evs1. h1 = history w @ evs1 \<and> attempts_made evs1 = 3
         \<and> (\<forall>ev\<in>set evs1. endpoint_of ev \<noteq> Some Fallback))
      \<and> (\<forall>sig h2.
            airdrop_attempt r Fallback (publicKey wd) 2000000000 (h1 @ [PrimaryRpcFailed])
              = (Inr sig, h2) \<longrightarrow>
            fst (request_tokens r uid now sess w) = AirdropSuccess sig
            \<and> history (snd (request_tokens r uid now sess w)) = h2
            \<and> (\<exists>evs2. h2 = h1 @ PrimaryRpcFailed # evs2 \<and> attempts_made evs2 = 1
                  \<and> (\<forall>ev\<in>set evs2. endpoint_of ev = Some Fallback)))
      \<and> (\<forall>res h2.
            fallback_run r wd h1 = (res, h2) \<longrightarrow>
            fst (request_tokens r uid now sess w)
              = (case res of Inr sig \<Rightarrow> AirdropSuccess sig | Inl err \<Rightarrow> AirdropUnavailable err)
            \<and> (\<exists>evs2. h2 = h1 @ PrimaryRpcFailed # evs2 \<and> attempts_made evs2 \<le> 3
                  \<and> (isl res \<longrightarrow> attempts_made evs2 = 3)
                  \<and> (\<forall>ev\<in>set evs2. endpoint_of ev \<noteq> Some Primary))))
   \<and> (wallet sess = Some wd \<and> 3600000 \<le> now - faucet_time w uid
        \<and> primary_run r wd (history w) = (Inr sig1, h1) \<longrightarrow>
        fst (request_tokens r uid now sess w) = AirdropSuccess sig1
        \<and> history (snd (request_tokens r uid now sess w)) = h1
        \<and> (\<exists>evs1. h1 = history w @ evs1 \<and> (\<forall>ev\<in>set evs1. endpoint_of ev \<noteq> Some Fallback)))
   \<and> (\<exists>evs. history (poll_cycle ns r w) = history w @ evs
         \<and> (\<forall>ev\<in>set evs. endpoint_of ev \<noteq> Some Fallback))
   \<and> (same_primary_reads r r' \<longrightarrow> poll_cycle ns r w = poll_cycle ns r' w)"
proof -
  let ?res = "request_tokens r uid now sess w"
  have A: "(\<exists>evs1. h1 = history w @ evs1 \<and> attempts_made evs1 = 3
         \<and> (\<forall>ev\<in>set evs1. endpoint_of ev \<noteq> Some Fallback))
      \<and> (\<forall>sig h2.
            airdrop_attempt r Fallback (publicKey wd) 2000000000 (h1 @ [PrimaryRpcFailed])
              = (Inr sig, h2) \<longrightarrow>
            fst ?res = AirdropSuccess sig \<and> history (snd ?res) = h2
            \<and> (\<exists>evs2. h2 = h1 @ PrimaryRpcFailed # evs2 \<and> attempts_made evs2 = 1
                  \<and> (\<forall>ev\<in>set evs2. endpoint_of ev = Some Fallback)))
      \<and> (\<forall>res h2.
            fallback_run r wd h1 = (res, h2) \<longrightarrow>
            fst ?res = (case res of Inr sig \<Rightarrow> AirdropSuccess sig | Inl err \<Rightarrow> AirdropUnavailable err)
            \<and> (\<exists>evs2. h2 = h1 @ PrimaryRpcFailed # evs2 \<and> attempts_made evs2 \<le> 3
                  \<and> (isl res \<longrightarrow> attempts_made evs2 = 3)
                  \<and> (\<forall>ev\<in>set evs2. endpoint_of ev \<noteq> Some Primary)))"
    if ws: "wallet sess = Some wd" and ge: "3600000 \<le> now - faucet_time w uid"
      and p: "primary_run r wd (history w) = (Inl e1, h1)"
  proof -
    note open_ = request_tokens_not_limited [OF ws ge, of r]
    have 1: "\<exists>evs1. h1 = history w @ evs1 \<and> attempts_made evs1 = 3
         \<and> (\<forall>ev\<in>set evs1. endpoint_of ev \<noteq> Some Fallback)"
      using retry_run_from_1 [OF p] by fastforce
    have 3: "fst ?res = (case res of Inr sig \<Rightarrow> AirdropSuccess sig | Inl err \<Rightarrow> AirdropUnavailable err)
            \<and> (\<exists>evs2. h2 = h1 @ PrimaryRpcFailed # evs2 \<and> attempts_made evs2 \<le> 3
                  \<and> (isl res \<longrightarrow> attempts_made evs2 = 3)
                  \<and> (\<forall>ev\<in>set evs2. endpoint_of ev \<noteq> Some Primary))"
      if q: "fallback_run r wd h1 = (res, h2)" for res h2
    proof -
      have "fst ?res = (case res of Inr sig \<Rightarrow> AirdropSuccess sig | Inl err \<Rightarrow> AirdropUnavailable err)"
        using open_ p q by (simp split: sum.splits)
      moreover have "\<exists>evs2. h2 = h1 @ PrimaryRpcFailed # evs2 \<and> attempts_made evs2 \<le> 3
                  \<and> (isl res \<longrightarrow> attempts_made evs2 = 3)
                  \<and> (\<forall>ev\<in>set evs2. endpoint_of ev \<noteq> Some Primary)"
        using retry_run_from_1 [OF q] by fastforce
      ultimately show ?thesis by blast
    qed
    have 2: "fst ?res = AirdropSuccess sig \<and> history (snd ?res) = h2
            \<and> (\<exists>evs2. h2 = h1 @ PrimaryRpcFailed # evs2 \<and> attempts_made evs2 = 1
                  \<and> (\<forall>ev\<in>set evs2. endpoint_of ev = Some Fallback))"
      if a: "airdrop_attempt r Fallback (publicKey wd) 2000000000 (h1 @ [PrimaryRpcFailed])
              = (Inr sig, h2)" for sig h2
    proof -
      have q: "fallback_run r wd h1 = (Inr sig, h2)"
        using retry_step_ok [OF _ a, of 1 3 2000] by simp
      have "fst ?res = AirdropSuccess sig" and "history (snd ?res) = h2"
        using open_ p q by simp_all
      moreover have "\<exists>evs2. h2 = h1 @ PrimaryRpcFailed # evs2 \<and> attempts_made evs2 = 1
                  \<and> (\<forall>ev\<in>set evs2. endpoint_of ev = Some Fallback)"
        using airdrop_attempt_events [of r Fallback "publicKey wd" 2000000000
            "h1 @ [PrimaryRpcFailed]"] a by auto
      ultimately show ?thesis by blast
    qed
    from 1 2 3 show ?thesis by blast
  qed
  have B: "fst ?res = AirdropSuccess sig1 \<and> history (snd ?res) = h1
        \<and> (\<exists>evs1. h1 = history w @ evs1 \<and> (\<forall>ev\<in>set evs1. endpoint_of ev \<noteq> Some Fallback))"
    if ws: "wallet sess = Some wd" and ge: "3600000 \<le> now - faucet_time w uid"
      and p: "primary_run r wd (history w) = (Inr sig1, h1)"
  proof -
    have "fst ?res = AirdropSuccess sig1" and "history (snd ?res) = h1"
      using request_tokens_not_limited [OF ws ge, of r] p by simp_all
    moreover have "\<exists>evs1. h1 = history w @ evs1
        \<and> (\<forall>ev\<in>set evs1. endpoint_of ev \<noteq> Some Fallback)"
      using retry_run_from_1 [OF p] by fastforce
    ultimately show ?thesis by blast
  qed
  have C: "\<exists>evs. history (poll_cycle ns r w) = history w @ evs
         \<and> (\<forall>ev\<in>set evs. endpoint_of ev \<noteq> Some Fallback)"
    using poll_entries_history [of ns r "wallets w" w] unfolding poll_cycle_def by blast
  have D: "same_primary_reads r r' \<longrightarrow> poll_cycle ns r w = poll_cycle ns r' w"
    by (simp add: poll_cycle_def poll_entries_same_primary)
  from A B C D show ?thesis by blast
qed

theorem failover_only_for_airdrop_witness:
  "wallet session_A = Some wallet_A
   \<and> (3600000::int) \<le> 1700000000000 - faucet_time empty_world 1
   \<and> primary_run (sample_remote ''X'' 1) wallet_A (history empty_world)
       = (Inl (Error ''rate limit''),
          [RpcRequestAirdrop Primary ''A'' 2000000000,
           AirdropAttemptFailed 1 Primary ''rate limit'', Sleep 2000,
           RpcRequestAirdrop Primary ''A'' 2000000000,
           AirdropAttemptFailed 2 Primary ''rate limit'', Sleep 4000,
           RpcRequestAirdrop Primary ''A'' 2000000000,
           AirdropAttemptFailed 3 Primary ''rate limit''])
   \<and> airdrop_attempt (sample_remote ''X'' 1) Fallback (publicKey wallet_A) 2000000000
        ([RpcRequestAirdrop Primary ''A'' 2000000000,
          AirdropAttemptFailed 1 Primary ''rate limit'', Sleep 2000,
          RpcRequestAirdrop Primary ''A'' 2000000000,
          AirdropAttemptFailed 2 Primary ''rate limit'', Sleep 4000,
          RpcRequestAirdrop Primary ''A'' 2000000000,
          AirdropAttemptFailed 3 Primary ''rate limit''] @ [PrimaryRpcFailed])
       = (Inr ''airdropSig'',
          [RpcRequestAirdrop Primary ''A'' 2000000000,
           AirdropAttemptFailed 1 Primary ''rate limit'', Sleep 2000,
           RpcRequestAirdrop Primary ''A'' 2000000000,
           AirdropAttemptFailed 2 Primary ''rate limit'', Sleep 4000,
           RpcRequestAirdrop Primary ''A'' 2000000000,
           AirdropAttemptFailed 3 Primary ''rate limit'', PrimaryRpcFailed,
           RpcRequestAirdrop Fallback ''A'' 2000000000,
           RpcConfirmTransaction Fallback ''airdropSig''])
   \<and> fst (request_tokens (sample_remote ''X'' 1) 1 1700000000000 session_A empty_world)
       = AirdropSuccess ''airdropSig''
   \<and> same_primary_reads (sample_remote ''X'' 1) ((sample_remote ''X'' 1)
        \<lparr>getSignaturesForAddress := (\<lambda>h conn pk n.
            if conn = Primary then Inr [''sig1''] else Inl (Error ''down''))\<rparr>)"
proof -
  let ?r = "sample_remote ''X'' 1"
  let ?h1 = "[RpcRequestAirdrop Primary ''A'' 2000000000,
           AirdropAttemptFailed 1 Primary ''rate limit'', Sleep 2000,
           RpcRequestAirdrop Primary ''A'' 2000000000,
           AirdropAttemptFailed 2 Primary ''rate limit'', Sleep 4000,
           RpcRequestAirdrop Primary ''A'' 2000000000,
           AirdropAttemptFailed 3 Primary ''rate limit'']"
  let ?h2 = "?h1 @ [PrimaryRpcFailed, RpcRequestAirdrop Fallback ''A'' 2000000000,
           RpcConfirmTransaction Fallback ''airdropSig'']"
  have ws: "wallet session_A = Some wallet_A" by (simp add: session_A_def)
  have ge: "(3600000::int) \<le> 1700000000000 - faucet_time empty_world 1"
    by (simp add: faucet_time_empty_world)
  have p: "primary_run ?r wallet_A (history empty_world) = (Inl (Error ''rate limit''), ?h1)"
    using sample_airdrop_primary [of "''X''" 1 "''A''" "[]"]
    by (simp add: wallet_A_def empty_world_def)
  have a: "airdrop_attempt ?r Fallback (publicKey wallet_A) 2000000000 (?h1 @ [PrimaryRpcFailed])
      = (Inr ''airdropSig'', ?h2)"
    by (simp add: airdrop_attempt_def sample_remote_def wallet_A_def)
  note inst = failover_only_for_airdrop
    [of session_A wallet_A 1700000000000 empty_world 1 ?r "Error ''rate limit''" ?h1]
  from inst ws ge p a
  have f: "fst (request_tokens ?r 1 1700000000000 session_A empty_world)
      = AirdropSuccess ''airdropSig''"
    by blast
  have s: "same_primary_reads ?r (?r
        \<lparr>getSignaturesForAddress := (\<lambda>h conn pk n.
            if conn = Primary then Inr [''sig1''] else Inl (Error ''down''))\<rparr>)"
    by (simp add: same_primary_reads_def sample_remote_def)
  from ws ge p a f s show ?thesis by simp
qed

section \<open>C10: other owners are not touched\<close>

text \<open>
  Claim C10. The poll of owner A and a faucet request of owner A write the snapshot
  entry of A at most: the snapshot of every other owner B and the whole wallet registry
  are as before.
\<close>

theorem other_owners_untouched:
  assumes "B \<noteq> A"
  shows "states (poll_owner ns r w (A, wA)) B = states w B
     \<and> wallets (poll_owner ns r w (A, wA)) = wallets w
     \<and> states (snd (request_tokens r A now sess w)) B = states w B
     \<and> wallets (snd (request_tokens r A now sess w)) = wallets w"
  using assms poll_owner_frame [of B "(A, wA)" ns r w] poll_owner_wallets [of ns r w "(A, wA)"]
    request_tokens_frame [of B A r now sess w] request_tokens_wallets [of r A now sess w]
  by simp

theorem other_owners_untouched_witness:
  "(2::nat) \<noteq> 1
   \<and> states (poll_owner int_text (sample_remote ''X'' 1)
        (empty_world\<lparr>wallets := [(1, wallet_A), (2, wallet_B)],
                     states := [2 \<mapsto> default_state\<lparr>lastBalance := 7\<rparr>]\<rparr>) (1, wallet_A)) 2
       = Some (default_state\<lparr>lastBalance := 7\<rparr>)
   \<and> wallets (poll_owner int_text (sample_remote ''X'' 1)
        (empty_world\<lparr>wallets := [(1, wallet_A), (2, wallet_B)],
                     states := [2 \<mapsto> default_state\<lparr>lastBalance := 7\<rparr>]\<rparr>) (1, wallet_A))
       = [(1, wallet_A), (2, wallet_B)]
   \<and> states (snd (request_tokens (sample_remote ''X'' 1) 1 1700000000000 session_A
        (empty_world\<lparr>wallets := [(1, wallet_A), (2, wallet_B)],
                     states := [2 \<mapsto> default_state\<lparr>lastBalance := 7\<rparr>]\<rparr>))) 2
       = Some (default_state\<lparr>lastBalance := 7\<rparr>)
   \<and> wallets (snd (request_tokens (sample_remote ''X'' 1) 1 1700000000000 session_A
        (empty_world\<lparr>wallets := [(1, wallet_A), (2, wallet_B)],
                     states := [2 \<mapsto> default_state\<lparr>lastBalance := 7\<rparr>]\<rparr>)))
       = [(1, wallet_A), (2, wallet_B)]"
proof -
  have ne: "(2::nat) \<noteq> 1" by simp
  from other_owners_untouched [OF ne, of int_text "sample_remote ''X'' 1"
      "empty_world\<lparr>wallets := [(1, wallet_A), (2, wallet_B)],
                     states := [2 \<mapsto> default_state\<lparr>lastBalance := 7\<rparr>]\<rparr>"
      wallet_A 1700000000000 session_A]
  show ?thesis by simp
qed

section \<open>C9: the first cycle of a new owner\<close>

lemma toFixed_zero: "toFixed 4 0 = ''0.0000''"
  by (simp add: toFixed_eval)

lemma balanceChanged_default:
  assumes "0 \<le> b"
  shows "balanceChanged (default_state :: 'n UserState) b \<longleftrightarrow> 1 / 20000 \<le> b"
proof -
  have z: "round_to_places 4 0 = 0" by (simp add: round_to_places_def)
  have "round_to_places 4 b = 0 \<longleftrightarrow> \<lfloor>b * 10 ^ 4 + 1 / 2\<rfloor> = 0"
    by (simp add: round_to_places_def round_def)
  also have "\<dots> \<longleftrightarrow> b * 10 ^ 4 + 1 / 2 < 1"
    using assms by (simp add: floor_eq_iff)
  also have "\<dots> \<longleftrightarrow> b < 1 / 20000" by (simp add: field_simps)
  finally have r: "round_to_places 4 b = 0 \<longleftrightarrow> b < 1 / 20000" .
  have "balanceChanged (default_state :: 'n UserState) b
      \<longleftrightarrow> round_to_places 4 (lastBalance (default_state :: 'n UserState)) \<noteq> round_to_places 4 b"
    using assms by (intro balanceChanged_iff) (simp_all add: default_state_def)
  also have "\<dots> \<longleftrightarrow> round_to_places 4 b \<noteq> 0"
    using z by (auto simp: default_state_def)
  finally show ?thesis using r by auto
qed

lemma positionsChanged_same: "\<not> positionsChanged ns ps ps"
  by (simp add: positionsChanged_def)

lemma signatureAlert_Nil: "\<not> signatureAlert [] old"
  by (simp add: signatureAlert_iff)

lemma alert_text_first_cycle:
  assumes "0 \<le> b"
  shows "alert_text ns (default_state :: 'n UserState) b [] []
     = (if 1 / 20000 \<le> b
        then ''Balance changed: 0.0000 to '' @ toFixed 4 b @ '' SOL'' @ [newline]
        else '''')"
  using balanceChanged_default [OF assms, where ?'n = 'n]
  by (simp add: alert_text_def Let_def positionsChanged_same signatureAlert_Nil toFixed_zero)
    (simp add: default_state_def positionsChanged_same signatureAlert_Nil toFixed_zero)

lemma first_cycle_poll_body:
  assumes ok: "fetch_succeeds r uid (publicKey wd) b [] []" and b: "0 \<le> b"
  shows "poll_body ns r uid wd default_state h
     = (Inr (default_state\<lparr>lastBalance := b, lastPositions := [], lastSignatures := []\<rparr>),
        h @ [RpcGetBalance Primary (publicKey wd), DlmmGetPositions (publicKey wd),
             RpcGetSignatures Primary (publicKey wd) 5]
          @ (if 1 / 20000 \<le> b
             then [SendMessage uid
                     (''Balance changed: 0.0000 to '' @ toFixed 4 b @ '' SOL'' @ [newline])]
             else []))"
proof -
  have 1: "fetch_with_retry (\<lambda>h'. getBalance r h' Primary (publicKey wd)) ev cur 0 h'
      = (Inr b, h' @ [ev])" for ev cur h'
    using ok by (intro fetch_with_retry_succeeds) (simp add: fetch_succeeds_def)
  have 2: "DlmmService_getPositions r h' (publicKey wd) = Inr []" for h'
    using ok by (simp add: DlmmService_getPositions_def fetch_succeeds_def)
  have 3: "fetch_with_retry (\<lambda>h'. getSignaturesForAddress r h' Primary (publicKey wd) 5) ev cur 0 h'
      = (Inr [], h' @ [ev])" for ev cur h'
    using ok by (intro fetch_with_retry_succeeds) (simp add: fetch_succeeds_def)
  have 4: "sendMessage r h' uid t = None" for h' t
    using ok by (simp add: fetch_succeeds_def)
  show ?thesis
    by (simp add: poll_body_def 1 2 3 4 Let_def alert_text_first_cycle [OF b])
qed

text \<open>
  Claim C9, as the code has it. The first time the poll sees an owner the baseline is the
  zero snapshot. For a new owner whose first positions and signatures are empty, the
  first cycle raises no positions and no signatures alert, and it raises the balance
  alert exactly when the first balance rounds to a non-zero value at 4 decimal places,
  that is when it is at least 0.00005.
\<close>

theorem first_cycle_alerts:
  assumes "states w uid = None" and "fetch_succeeds r uid (publicKey wd) b [] []"
    and "0 \<le> b" and "b < 10 ^ 21"
  shows "state_or_default w uid = default_state
     \<and> \<not> positionsChanged ns [] (lastPositions (state_or_default w uid))
     \<and> \<not> signatureAlert [] (lastSignatures (state_or_default w uid))
     \<and> (balanceChanged (state_or_default w uid) b \<longleftrightarrow> 1 / 20000 \<le> b)
     \<and> history (poll_owner ns r w (uid, wd))
         = history w @ [RpcGetBalance Primary (publicKey wd), DlmmGetPositions (publicKey wd),
                        RpcGetSignatures Primary (publicKey wd) 5]
             @ (if 1 / 20000 \<le> b
                then [SendMessage uid
                        (''Balance changed: 0.0000 to '' @ toFixed 4 b @ '' SOL'' @ [newline])]
                else [])
     \<and> states (poll_owner ns r w (uid, wd)) uid
         = Some (default_state\<lparr>lastBalance := b, lastPositions := [], lastSignatures := []\<rparr>)"
proof -
  have sd: "state_or_default w uid = default_state"
    using assms(1) by (simp add: state_or_default_def)
  have 2: "\<not> positionsChanged ns [] (lastPositions (state_or_default w uid))"
    by (simp add: sd default_state_def positionsChanged_same)
  have 3: "\<not> signatureAlert [] (lastSignatures (state_or_default w uid))"
    by (rule signatureAlert_Nil)
  have 4: "balanceChanged (state_or_default w uid) b \<longleftrightarrow> 1 / 20000 \<le> b"
    unfolding sd by (rule balanceChanged_default [OF assms(3)])
  note pb = first_cycle_poll_body [OF assms(2,3), of ns "history w"]
  have po: "poll_owner ns r w (uid, wd)
      = w\<lparr>states := (states w)(uid \<mapsto> default_state\<lparr>lastBalance := b, lastPositions := [],
                                                      lastSignatures := []\<rparr>),
          history := history w @ [RpcGetBalance Primary (publicKey wd),
                        DlmmGetPositions (publicKey wd),
                        RpcGetSignatures Primary (publicKey wd) 5]
             @ (if 1 / 20000 \<le> b
                then [SendMessage uid
                        (''Balance changed: 0.0000 to '' @ toFixed 4 b @ '' SOL'' @ [newline])]
                else [])\<rparr>"
    using pb by (intro poll_owner_updated) (simp add: sd)
  from sd 2 3 4 po show ?thesis by simp
qed

theorem first_cycle_alerts_witness:
  "states empty_world 1 = None
   \<and> fetch_succeeds (fresh_remote 1) 1 (publicKey wallet_A) 1 [] []
   \<and> (0::rat) \<le> 1 \<and> (1::rat) < 10 ^ 21
   \<and> history (poll_owner int_text (fresh_remote 1) empty_world (1, wallet_A))
       = [RpcGetBalance Primary ''A'', DlmmGetPositions ''A'', RpcGetSignatures Primary ''A'' 5,
          SendMessage 1 (''Balance changed: 0.0000 to 1.0000 SOL'' @ [newline])]"
proof -
  have h1: "states empty_world 1 = None" by (simp add: empty_world_def)
  have h2: "fetch_succeeds (fresh_remote 1) 1 (publicKey wallet_A) 1 [] []"
    by (simp add: fetch_succeeds_def fresh_remote_def)
  have h3: "(0::rat) \<le> 1" and h4: "(1::rat) < 10 ^ 21" by simp_all
  have t: "toFixed 4 1 = ''1.0000''" by (simp add: toFixed_eval)
  from first_cycle_alerts [OF h1 h2 h3 h4, of int_text]
  have "history (poll_owner int_text (fresh_remote 1) empty_world (1, wallet_A))
       = [RpcGetBalance Primary ''A'', DlmmGetPositions ''A'', RpcGetSignatures Primary ''A'' 5,
          SendMessage 1 (''Balance changed: 0.0000 to 1.0000 SOL'' @ [newline])]"
    by (simp add: t wallet_A_def empty_world_def)
  with h1 h2 show ?thesis by simp
qed

text \<open>
  As the claim states it, a non-zero first balance always raises the balance alert. A
  first balance of 0.00001 (10000 lamports) is non-zero and prints as 0.0000: the poll
  of the new owner sends no message.
\<close>

theorem first_cycle_small_balance_counterexample:
  "(1 / 100000 :: rat) \<noteq> 0
   \<and> states empty_world 1 = None
   \<and> \<not> balanceChanged (default_state :: int UserState) (1 / 100000)
   \<and> poll_owner int_text (fresh_remote (1 / 100000)) empty_world (1, wallet_A)
       = empty_world
           \<lparr>states := (states empty_world)
              (1 \<mapsto> default_state\<lparr>lastBalance := 1 / 100000, lastPositions := [],
                                    lastSignatures := []\<rparr>),
            history := [RpcGetBalance Primary ''A'', DlmmGetPositions ''A'',
                        RpcGetSignatures Primary ''A'' 5]\<rparr>"
proof -
  have nb: "\<not> balanceChanged (default_state :: int UserState) (1 / 100000)"
    by (simp add: balanceChanged_def default_state_def toFixed_eval)
  have ok: "fetch_succeeds (fresh_remote (1 / 100000)) 1 (publicKey wallet_A) (1 / 100000) [] []"
    by (simp add: fetch_succeeds_def fresh_remote_def)
  have sd: "state_or_default empty_world 1 = default_state"
    by (simp add: state_or_default_def empty_world_def)
  have "poll_body int_text (fresh_remote (1 / 100000)) 1 wallet_A
      (state_or_default empty_world 1) (history empty_world)
      = (Inr (default_state\<lparr>lastBalance := 1 / 100000, lastPositions := [],
                              lastSignatures := []\<rparr>),
         [RpcGetBalance Primary ''A'', DlmmGetPositions ''A'', RpcGetSignatures Primary ''A'' 5])"
    unfolding sd using first_cycle_poll_body [OF ok, of int_text "history empty_world"]
    by (simp add: wallet_A_def empty_world_def)
  from poll_owner_updated [OF this] nb show ?thesis
    by (simp add: empty_world_def)
qed

section \<open>C8: wallet import\<close>

lemma on_text_closed:
  assumes "\<not> import_gate sess text"
  shows "on_text decode fsk r uid text sess w
     = (if startsWith text ''/'' \<and> wallet sess = None then WalletMissingReply else NoReply,
        sess, w)"
  using assms by (auto simp: on_text_def import_gate_def)

lemma on_text_decode_error:
  assumes "import_gate sess text" and "decode (trim text) = Inl err"
  shows "on_text decode fsk r uid text sess w
     = (ImportFailed (if message err = [] then ''Invalid key or unknown error'' else message err),
        sess, w\<lparr>history := history w @ [WalletImportError uid err]\<rparr>)"
  using assms by (simp add: on_text_def import_gate_def Let_def)

lemma on_text_wrong_length:
  assumes "import_gate sess text" and "decode (trim text) = Inr sk" and "length sk \<noteq> 64"
  shows "on_text decode fsk r uid text sess w
     = (ImportFailed ''Invalid private key length (must be 64 bytes).'', sess,
        w\<lparr>history := history w
             @ [WalletImportError uid (Error ''Invalid private key length (must be 64 bytes).'')]\<rparr>)"
  using assms by (simp add: on_text_def import_gate_def Let_def)

lemma on_text_rejected_key:
  assumes "import_gate sess text" and "decode (trim text) = Inr sk" and "length sk = 64"
    and "fsk sk = Inl err"
  shows "on_text decode fsk r uid text sess w
     = (ImportFailed (if message err = [] then ''Invalid key or unknown error'' else message err),
        sess, w\<lparr>history := history w @ [WalletImportError uid err]\<rparr>)"
  using assms by (simp add: on_text_def import_gate_def Let_def)

lemma on_text_stored:
  assumes "import_gate sess text" and "decode (trim text) = Inr sk" and "length sk = 64"
    and "fsk sk = Inr pk"
  shows "on_text decode fsk r uid text sess w
       = (case getBalance r (history w) Primary pk of
            Inl err \<Rightarrow> ImportFailed (if message err = [] then ''Invalid key or unknown error''
                                       else message err)
          | Inr b \<Rightarrow> WalletImported pk b,
          \<lparr>wallet = Some \<lparr>publicKey = pk, privateKey = trim text\<rparr>,
           waitingForWalletImport = False\<rparr>,
          w\<lparr>wallets := AList.update uid \<lparr>publicKey = pk, privateKey = trim text\<rparr> (wallets w),
            history := history w @ RpcGetBalance Primary pk #
              (case getBalance r (history w) Primary pk of
                 Inl err \<Rightarrow> [WalletImportError uid err] | Inr b \<Rightarrow> [])\<rparr>)"
  using assms
  by (cases "getBalance r (history w) Primary pk")
    (simp_all add: on_text_def import_gate_def Let_def)

lemma trim_ones_spaces:
  "trim (replicate n CHR ''1'' @ replicate m CHR '' '') = replicate n CHR ''1''"
proof -
  have one: "\<not> is_space CHR ''1''" and sp: "is_space CHR '' ''"
    by (simp_all add: is_space_def)
  have d1: "dropWhile is_space (replicate n CHR ''1'' @ ys) = replicate n CHR ''1'' @ ys"
    if "ys = [] \<or> n \<noteq> 0 \<or> \<not> is_space (hd ys)" for ys n
    using that one by (cases n) (auto simp: dropWhile_eq_self_iff)
  have d2: "dropWhile is_space (replicate m CHR '' '' @ ys) = dropWhile is_space ys" for ys
    using sp by (intro dropWhile_append2) auto
  show ?thesis
  proof (cases n)
    case 0
    have "dropWhile is_space (replicate m CHR '' '') = []" using sp by simp
    with 0 show ?thesis by (simp add: trim_def)
  next
    case (Suc k)
    have a: "dropWhile is_space (replicate n CHR ''1'' @ replicate m CHR '' '')
        = replicate n CHR ''1'' @ replicate m CHR '' ''"
      using Suc by (intro d1) simp
    have b: "dropWhile is_space (replicate m CHR '' '' @ replicate n CHR ''1'')
        = replicate n CHR ''1''"
      using d1 [of "[]" n] by (simp add: d2)
    show ?thesis by (simp add: trim_def a b)
  qed
qed

lemma trim_ones: "trim (replicate n CHR ''1'') = replicate n CHR ''1''"
  using trim_ones_spaces [of n 0] by simp

lemma bs58_decode_ones: "bs58_decode (replicate n CHR ''1'') = Inr (replicate n 0)"
proof -
  have "takeWhile (\<lambda>c. c = CHR ''1'') (replicate n CHR ''1'') = replicate n CHR ''1''"
    by (simp add: takeWhile_eq_all_conv)
  moreover have "dropWhile (\<lambda>c. c = CHR ''1'') (replicate n CHR ''1'') = []"
    by simp
  ultimately show ?thesis
    by (simp add: bs58_decode_def bytes_of.simps [of 0])
qed

lemma bs58_decode_dev: "bs58_decode (trim ''dev'') = Inr [1, 225, 167]"
proof -
  have t: "trim ''dev'' = ''dev''" by (simp add: trim_def is_space_def)
  have v: "b58_value ''dev'' 0 = Some 123303" by (simp add: b58_alphabet_def)
  have b: "bytes_of 123303 = [1, 225, 167]"
    by (simp add: bytes_of.simps [of 123303] bytes_of.simps [of 481] bytes_of.simps [of 1]
        bytes_of.simps [of "Suc 0"]
        bytes_of.simps [of 0])
  have tw: "takeWhile (\<lambda>c. c = CHR ''1'') ''dev'' = []"
    and dw: "dropWhile (\<lambda>c. c = CHR ''1'') ''dev'' = ''dev''" by simp_all
  show ?thesis unfolding t bs58_decode_def Let_def tw dw v by (simp add: b)
qed

lemma demo_key_zero: "demo_fromSecretKey (replicate 64 0) = Inr (replicate 32 (CHR 0x00))"
  by (simp add: demo_fromSecretKey_def char_of_def)

text \<open>
  Claim C8, as the code has it. The handler looks at a message as a key only while an
  import is pending and the message starts with "dev" or has more than 80 characters.
  Then it decodes the trimmed text and answers with an invalid-key error, leaving the
  registry and the session as they were, when the decoding fails, when the decoded key
  is not 64 bytes long or when the key-pair constructor rejects it. For a 64-byte key
  the constructor accepts, it stores the record, replacing any earlier record of that
  owner, and importing the same text again gives the same record. Any other message
  changes nothing.
\<close>

theorem wallet_import_behind_gate:
  "(import_gate sess text \<and> decode (trim text) = Inr sk \<and> length sk \<noteq> 64 \<longrightarrow>
      fst (on_text decode fsk r uid text sess w)
        = ImportFailed ''Invalid private key length (must be 64 bytes).''
      \<and> fst (snd (on_text decode fsk r uid text sess w)) = sess
      \<and> wallets (snd (snd (on_text decode fsk r uid text sess w))) = wallets w)
   \<and> (import_gate sess text
        \<and> (decode (trim text) = Inl err
            \<or> decode (trim text) = Inr sk \<and> length sk = 64 \<and> fsk sk = Inl err) \<longrightarrow>
      fst (on_text decode fsk r uid text sess w)
        = ImportFailed (if message err = [] then ''Invalid key or unknown error'' else message err)
      \<and> fst (snd (on_text decode fsk r uid text sess w)) = sess
      \<and> wallets (snd (snd (on_text decode fsk r uid text sess w))) = wallets w)
   \<and> (import_gate sess text \<and> decode (trim text) = Inr sk \<and> length sk = 64
        \<and> fsk sk = Inr pk \<longrightarrow>
      map_of (wallets (snd (snd (on_text decode fsk r uid text sess w)))) uid
        = Some \<lparr>publicKey = pk, privateKey = trim text\<rparr>
      \<and> (\<forall>B. B \<noteq> uid \<longrightarrow>
            map_of (wallets (snd (snd (on_text decode fsk r uid text sess w)))) B
              = map_of (wallets w) B)
      \<and> fst (snd (on_text decode fsk r uid text sess w))
          = \<lparr>wallet = Some \<lparr>publicKey = pk, privateKey = trim text\<rparr>,
             waitingForWalletImport = False\<rparr>
      \<and> (\<forall>b. getBalance r (history w) Primary pk = Inr b \<longrightarrow>
            fst (on_text decode fsk r uid text sess w) = WalletImported pk b)
      \<and> (\<forall>sess2 r2. import_gate sess2 text \<longrightarrow>
            map_of (wallets (snd (snd (on_text decode fsk r2 uid text sess2
               (snd (snd (on_text decode fsk r uid text sess w))))))) uid
              = Some \<lparr>publicKey = pk, privateKey = trim text\<rparr>))
   \<and> (\<not> import_gate sess text \<longrightarrow>
        on_text decode fsk r uid text sess w
          = (if startsWith text ''/'' \<and> wallet sess = None then WalletMissingReply else NoReply,
             sess, w))"
proof -
  let ?res = "on_text decode fsk r uid text sess w"
  have A: "fst ?res = ImportFailed ''Invalid private key length (must be 64 bytes).''
      \<and> fst (snd ?res) = sess \<and> wallets (snd (snd ?res)) = wallets w"
    if "import_gate sess text" "decode (trim text) = Inr sk" "length sk \<noteq> 64"
    using on_text_wrong_length [of sess "text" decode sk fsk r uid w] that by simp
  have B: "fst ?res
        = ImportFailed (if message err = [] then ''Invalid key or unknown error'' else message err)
      \<and> fst (snd ?res) = sess \<and> wallets (snd (snd ?res)) = wallets w"
    if g: "import_gate sess text"
      and "decode (trim text) = Inl err
            \<or> decode (trim text) = Inr sk \<and> length sk = 64 \<and> fsk sk = Inl err"
    using that(2)
  proof
    assume "decode (trim text) = Inl err"
    from on_text_decode_error [of sess "text" decode err fsk r uid w] g this show ?thesis by simp
  next
    assume "decode (trim text) = Inr sk \<and> length sk = 64 \<and> fsk sk = Inl err"
    then have "decode (trim text) = Inr sk" "length sk = 64" "fsk sk = Inl err" by simp_all
    from on_text_rejected_key [of sess "text" decode sk fsk err r uid w] g this
    show ?thesis by simp
  qed
  have C: "map_of (wallets (snd (snd ?res))) uid = Some \<lparr>publicKey = pk, privateKey = trim text\<rparr>
      \<and> (\<forall>B. B \<noteq> uid \<longrightarrow> map_of (wallets (snd (snd ?res))) B = map_of (wallets w) B)
      \<and> fst (snd ?res)
          = \<lparr>wallet = Some \<lparr>publicKey = pk, privateKey = trim text\<rparr>,
             waitingForWalletImport = False\<rparr>
      \<and> (\<forall>b. getBalance r (history w) Primary pk = Inr b \<longrightarrow> fst ?res = WalletImported pk b)
      \<and> (\<forall>sess2 r2. import_gate sess2 text \<longrightarrow>
            map_of (wallets (snd (snd (on_text decode fsk r2 uid text sess2 (snd (snd ?res)))))) uid
              = Some \<lparr>publicKey = pk, privateKey = trim text\<rparr>)"
    if g: "import_gate sess text" and k: "decode (trim text) = Inr sk" "length sk = 64"
      "fsk sk = Inr pk"
  proof -
    note st = on_text_stored [of sess "text" decode sk fsk pk r uid w, OF g k]
    have 1: "map_of (wallets (snd (snd ?res))) uid
        = Some \<lparr>publicKey = pk, privateKey = trim text\<rparr>"
      by (simp add: st update_conv')
    have 2: "\<forall>B. B \<noteq> uid \<longrightarrow> map_of (wallets (snd (snd ?res))) B = map_of (wallets w) B"
      by (simp add: st update_conv')
    have 3: "fst (snd ?res)
          = \<lparr>wallet = Some \<lparr>publicKey = pk, privateKey = trim text\<rparr>,
             waitingForWalletImport = False\<rparr>"
      by (simp add: st)
    have 4: "\<forall>b. getBalance r (history w) Primary pk = Inr b \<longrightarrow> fst ?res = WalletImported pk b"
      by (simp add: st)
    have 5: "map_of (wallets (snd (snd (on_text decode fsk r2 uid text sess2 (snd (snd ?res)))))) uid
              = Some \<lparr>publicKey = pk, privateKey = trim text\<rparr>"
      if "import_gate sess2 text" for sess2 r2
      using on_text_stored [of sess2 "text" decode sk fsk pk r2 uid "snd (snd ?res)", OF that k]
      by (simp add: update_conv')
    from 1 2 3 4 5 show ?thesis by blast
  qed
  have D: "\<not> import_gate sess text \<longrightarrow>
        ?res = (if startsWith text ''/'' \<and> wallet sess = None then WalletMissingReply else NoReply,
             sess, w)"
    using on_text_closed by blast
  from A B C D show ?thesis by blast
qed

theorem wallet_import_behind_gate_witness:
  "import_gate pending_session (replicate 64 CHR ''1'' @ replicate 17 CHR '' '')
   \<and> bs58_decode (trim (replicate 64 CHR ''1'' @ replicate 17 CHR '' '')) = Inr (replicate 64 0)
   \<and> length (replicate 64 (0 :: 8 word)) = 64
   \<and> demo_fromSecretKey (replicate 64 0) = Inr (replicate 32 (CHR 0x00))
   \<and> map_of (wallets (snd (snd (on_text bs58_decode demo_fromSecretKey (fresh_remote 1) 1
        (replicate 64 CHR ''1'' @ replicate 17 CHR '' '') pending_session empty_world)))) 1
       = Some \<lparr>publicKey = replicate 32 (CHR 0x00), privateKey = replicate 64 CHR ''1''\<rparr>
   \<and> import_gate pending_session ''dev''
   \<and> bs58_decode (trim ''dev'') = Inr [1, 225, 167]
   \<and> length [1, 225, 167 :: 8 word] \<noteq> 64
   \<and> fst (on_text bs58_decode demo_fromSecretKey (fresh_remote 1) 1 ''dev'' pending_session
        empty_world)
       = ImportFailed ''Invalid private key length (must be 64 bytes).''"
proof -
  let ?text = "replicate 64 CHR ''1'' @ replicate 17 CHR '' ''"
  have g: "import_gate pending_session ?text"
    by (simp add: import_gate_def pending_session_def)
  have d: "bs58_decode (trim ?text) = Inr (replicate 64 0)"
    by (simp only: trim_ones_spaces bs58_decode_ones)
  have l: "length (replicate 64 (0 :: 8 word)) = 64" by simp
  note k = demo_key_zero
  have t: "trim ?text = replicate 64 CHR ''1''" by (rule trim_ones_spaces)
  from wallet_import_behind_gate
    [of pending_session ?text bs58_decode "replicate 64 0" demo_fromSecretKey "fresh_remote 1" 1
      empty_world _ "replicate 32 (CHR 0x00)"]
    g d l k
  have s: "map_of (wallets (snd (snd (on_text bs58_decode demo_fromSecretKey (fresh_remote 1) 1
        ?text pending_session empty_world)))) 1
       = Some \<lparr>publicKey = replicate 32 (CHR 0x00), privateKey = replicate 64 CHR ''1''\<rparr>"
    unfolding t by blast
  have g2: "import_gate pending_session ''dev''"
    by (simp add: import_gate_def pending_session_def startsWith_def)
  have l2: "length [1, 225, 167 :: 8 word] \<noteq> 64" by simp
  from wallet_import_behind_gate
    [of pending_session "''dev''" bs58_decode "[1, 225, 167]" demo_fromSecretKey "fresh_remote 1" 1
      empty_world]
    g2 bs58_decode_dev l2
  have f: "fst (on_text bs58_decode demo_fromSecretKey (fresh_remote 1) 1 ''dev'' pending_session
        empty_world)
       = ImportFailed ''Invalid private key length (must be 64 bytes).''"
    by blast
  from g d l k s g2 bs58_decode_dev l2 f show ?thesis by (intro conjI)
qed

text \<open>
  As the claim states it, every key that does not decode to 64 bytes is answered with an
  invalid-key error and every well-encoded 64-byte key is imported. The text of 32
  characters \<open>1\<close> decodes to a 32-byte key and the text of 64 characters \<open>1\<close> to a
  64-byte key; neither starts with "dev" nor has more than 80 characters, so with an
  import pending the handler answers neither: no error and no record.
\<close>

theorem wallet_import_short_text_counterexample:
  "bs58_decode (trim (replicate 32 CHR ''1'')) = Inr (replicate 32 0)
   \<and> length (replicate 32 (0 :: 8 word)) \<noteq> 64
   \<and> on_text bs58_decode demo_fromSecretKey (fresh_remote 1) 1 (replicate 32 CHR ''1'')
        pending_session empty_world
       = (NoReply, pending_session, empty_world)
   \<and> bs58_decode (trim (replicate 64 CHR ''1'')) = Inr (replicate 64 0)
   \<and> length (replicate 64 (0 :: 8 word)) = 64
   \<and> on_text bs58_decode demo_fromSecretKey (fresh_remote 1) 1 (replicate 64 CHR ''1'')
        pending_session empty_world
       = (NoReply, pending_session, empty_world)"
proof -
  have n: "\<not> import_gate pending_session (replicate 32 CHR ''1'')"
    "\<not> import_gate pending_session (replicate 64 CHR ''1'')"
    by (simp_all add: import_gate_def startsWith_def replicate_numeral)
  have s: "\<not> startsWith (replicate 32 CHR ''1'') ''/''"
    "\<not> startsWith (replicate 64 CHR ''1'') ''/''"
    by (simp_all add: startsWith_def replicate_numeral)
  have d: "bs58_decode (trim (replicate n CHR ''1'')) = Inr (replicate n 0)" for n
    by (simp only: trim_ones bs58_decode_ones)
  from on_text_closed [OF n(1), of bs58_decode demo_fromSecretKey "fresh_remote 1" 1 empty_world]
    on_text_closed [OF n(2), of bs58_decode demo_fromSecretKey "fresh_remote 1" 1 empty_world]
    s d [of 32] d [of 64]
  show ?thesis by simp
qed

end
